theory Spec2Isabelle
  imports Complex_Main
begin

section \<open>Tensors as lists of reals\<close>

text \<open>
  The model reads the tensor code of \<^verbatim>\<open>ca_body/models/rgca.py\<close> over the real numbers:
  a vector (the last dimension of a tensor) is a \<open>real list\<close>, a matrix is a list of rows,
  and every further dimension (lights, Gaussians, batch) is one more list level. The
  operations are total on lists; where the tensor library would reject a shape, the shape
  is a hypothesis of the theorem that needs it. Learned layers and the kernels that are not
  part of these files (rasteriser, spherical-harmonics basis, environment sampler) are
  parameters: the theorems hold for every value of them.
\<close>

type_synonym vec = "real list"
type_synonym mat = "real list list"

datatype error = IndexError | RuntimeError | TypeError | KeyError string | ValueError string

text \<open>\<^verbatim>\<open>x.clamp(lo, hi)\<close>, \<^verbatim>\<open>x.clamp(min=lo)\<close> and \<^verbatim>\<open>x.clamp(max=hi)\<close> on one element.\<close>

definition clamp :: "real \<Rightarrow> real \<Rightarrow> real \<Rightarrow> real" where
  "clamp lo hi x = min (max x lo) hi"

definition clamp_min :: "real \<Rightarrow> real \<Rightarrow> real" where
  "clamp_min lo x = max x lo"

definition clamp_max :: "real \<Rightarrow> real \<Rightarrow> real" where
  "clamp_max hi x = min x hi"

section \<open>Vector and matrix operations\<close>

text \<open>Elementwise \<^verbatim>\<open>a + b\<close>, \<^verbatim>\<open>a - b\<close>, \<^verbatim>\<open>s * a\<close> and the sum of products over the last dimension.\<close>

definition vadd :: "vec \<Rightarrow> vec \<Rightarrow> vec" where
  "vadd a b = map2 (+) a b"

definition vsub :: "vec \<Rightarrow> vec \<Rightarrow> vec" where
  "vsub a b = map2 (-) a b"

definition smul :: "real \<Rightarrow> vec \<Rightarrow> vec" where
  "smul s a = map (\<lambda>x. s * x) a"

definition dot :: "vec \<Rightarrow> vec \<Rightarrow> real" where
  "dot a b = sum_list (map2 (*) a b)"

text \<open>
  Matrix products: \<^verbatim>\<open>v[None] @ M\<close> (a row vector times a matrix, entry \<open>j\<close> is the product of
  \<open>v\<close> with column \<open>j\<close>), \<open>M v\<close> (entry \<open>i\<close> is the product of row \<open>i\<close> with \<open>v\<close>, as in
  \<^verbatim>\<open>einsum("xy,y->x")\<close>) and \<^verbatim>\<open>A @ B\<close>.
\<close>

definition vecmat :: "vec \<Rightarrow> mat \<Rightarrow> vec" where
  "vecmat v M = map (dot v) (transpose M)"

definition matvec :: "mat \<Rightarrow> vec \<Rightarrow> vec" where
  "matvec M v = map (\<lambda>row. dot row v) M"

definition matmul :: "mat \<Rightarrow> mat \<Rightarrow> mat" where
  "matmul A B = map (\<lambda>row. vecmat row B) A"

text \<open>
  \<^verbatim>\<open>F.normalize(v, p=2, dim=-1)\<close> on one vector: \<open>v\<close> divided by its Euclidean norm, the
  divisor kept at least \<open>eps = 1e-12\<close> (the library's default).
\<close>

definition norm2 :: "vec \<Rightarrow> real" where
  "norm2 v = sqrt (sum_list (map (\<lambda>x. x\<^sup>2) v))"

definition eps :: real where
  "eps = 1 / 10 ^ 12"

definition F_normalize :: "vec \<Rightarrow> vec" where
  "F_normalize v = map (\<lambda>x. x / max (norm2 v) eps) v"

section \<open>AutoEncoder.render\<close>

text \<open>
  A pixel value: a float32 number read as a real, one of the two infinities, or NaN.
  Rounding and the sign of zero are not modelled.
\<close>

datatype fval = Val real | PosInf | NegInf | NaN

text \<open>
  What one call of the rasteriser \<^verbatim>\<open>render_gs\<close> returns: the dictionary entries
  \<^verbatim>\<open>"render"\<close>, \<^verbatim>\<open>"final_T"\<close> and \<^verbatim>\<open>"depth"\<close>, each image a buffer of pixel values.
\<close>

record render_output =
  render :: "fval list"
  final_T :: "fval list"
  depth :: "fval list"

text \<open>
  The entries \<^verbatim>\<open>preds["primpos"]\<close>, ..., \<^verbatim>\<open>preds["color"]\<close> that \<^verbatim>\<open>render\<close> reads, each
  indexed by the batch element.
\<close>

record 'g render_preds =
  preds_primpos :: "'g list"
  preds_primqvec :: "'g list"
  preds_primscale :: "'g list"
  preds_opacity :: "'g list"
  preds_color :: "'g list"

text \<open>
  The rasteriser as the code calls it: width, height, \<open>fx\<close>, \<open>fy\<close>, \<open>cx\<close>, \<open>cy\<close>, \<open>Rt\<close> and the
  five per-Gaussian tensors of one batch element.
\<close>

type_synonym ('r, 'g) render_gs =
  "nat \<Rightarrow> nat \<Rightarrow> real \<Rightarrow> real \<Rightarrow> real \<Rightarrow> real \<Rightarrow> 'r \<Rightarrow> 'g \<Rightarrow> 'g \<Rightarrow> 'g \<Rightarrow> 'g \<Rightarrow> 'g \<Rightarrow> render_output"

text \<open>Indexing along the first dimension raises \<^verbatim>\<open>IndexError\<close> out of range.\<close>

definition index :: "'a list \<Rightarrow> nat \<Rightarrow> error + 'a" where
  "index xs i = (if i < length xs then Inr (xs ! i) else Inl IndexError)"

definition bind :: "error + 'a \<Rightarrow> ('a \<Rightarrow> error + 'b) \<Rightarrow> error + 'b" where
  "bind m f = (case m of Inl e \<Rightarrow> Inl e | Inr x \<Rightarrow> f x)"

text \<open>
  The body of the loop \<^verbatim>\<open>for b in range(B)\<close>: the call of \<^verbatim>\<open>render_gs\<close> for batch
  element \<open>b\<close>, with the intrinsics read from \<^verbatim>\<open>K[b, 0, 0]\<close>, \<^verbatim>\<open>K[b, 1, 1]\<close>,
  \<^verbatim>\<open>K[b, 0, 2]\<close> and \<^verbatim>\<open>K[b, 1, 2]\<close>.
\<close>

definition render_call ::
  "('r, 'g) render_gs \<Rightarrow> nat \<Rightarrow> nat \<Rightarrow> mat list \<Rightarrow> 'r list \<Rightarrow> 'g render_preds \<Rightarrow> nat
     \<Rightarrow> error + render_output" where
  "render_call rgs width height K Rt preds b =
     bind (index K b) (\<lambda>Kb.
     bind (index Kb 0) (\<lambda>K0.
     bind (index Kb 1) (\<lambda>K1.
     bind (index K0 0) (\<lambda>fx.
     bind (index K1 1) (\<lambda>fy.
     bind (index K0 2) (\<lambda>cx.
     bind (index K1 2) (\<lambda>cy.
     bind (index Rt b) (\<lambda>Rtb.
     bind (index (preds_primpos preds) b) (\<lambda>pos.
     bind (index (preds_primqvec preds) b) (\<lambda>qvec.
     bind (index (preds_primscale preds) b) (\<lambda>scale.
     bind (index (preds_opacity preds) b) (\<lambda>opa.
     bind (index (preds_color preds) b) (\<lambda>col.
       Inr (rgs width height fx fy cx cy Rtb pos qvec scale opa col))))))))))))))"

text \<open>The loop itself: the outputs of the calls for \<open>b = 0, ..., B - 1\<close> in order.\<close>

fun render_loop :: "(nat \<Rightarrow> error + render_output) \<Rightarrow> nat list \<Rightarrow> error + render_output list" where
  "render_loop call [] = Inr []"
| "render_loop call (b # bs) =
     bind (call b) (\<lambda>out. bind (render_loop call bs) (\<lambda>outs. Inr (out # outs)))"

text \<open>
  \<^verbatim>\<open>th.stack\<close> over the batch: it raises on an empty list and on images of different shapes.
\<close>

definition stack :: "'a list list \<Rightarrow> error + 'a list list" where
  "stack ts =
     (if ts = [] then Inl RuntimeError
      else if list_all (\<lambda>t. length t = length (hd ts)) ts then Inr ts
      else Inl RuntimeError)"

text \<open>
  The three pixel operations of \<^verbatim>\<open>render\<close>: \<^verbatim>\<open>c - x\<close> for a number \<open>c\<close>, \<^verbatim>\<open>x.clamp(lo, hi)\<close>
  (a NaN stays a NaN) and the division \<^verbatim>\<open>x / y\<close>.
\<close>

definition rsub :: "real \<Rightarrow> fval \<Rightarrow> fval" where
  "rsub c x = (case x of Val r \<Rightarrow> Val (c - r) | PosInf \<Rightarrow> NegInf | NegInf \<Rightarrow> PosInf | NaN \<Rightarrow> NaN)"

definition fclamp :: "real \<Rightarrow> real \<Rightarrow> fval \<Rightarrow> fval" where
  "fclamp lo hi x =
     (case x of Val r \<Rightarrow> Val (clamp lo hi r) | PosInf \<Rightarrow> Val hi | NegInf \<Rightarrow> Val lo | NaN \<Rightarrow> NaN)"

fun fdiv :: "fval \<Rightarrow> fval \<Rightarrow> fval" where
  "fdiv NaN y = NaN"
| "fdiv x NaN = NaN"
| "fdiv (Val x) (Val y) =
     (if y \<noteq> 0 then Val (x / y) else if x = 0 then NaN else if 0 < x then PosInf else NegInf)"
| "fdiv (Val x) y = Val 0"
| "fdiv PosInf (Val y) = (if 0 \<le> y then PosInf else NegInf)"
| "fdiv NegInf (Val y) = (if 0 \<le> y then NegInf else PosInf)"
| "fdiv x y = NaN"

text \<open>
  The division of two stacked tensors \<open>[B, n]\<close> and \<open>[B, m]\<close>: element by element when
  \<open>n = m\<close>, with the single value of a row repeated when \<open>m = 1\<close> or \<open>n = 1\<close>, and a
  \<^verbatim>\<open>RuntimeError\<close> for any other pair of shapes.
\<close>

definition tdiv :: "fval list list \<Rightarrow> fval list list \<Rightarrow> error + fval list list" where
  "tdiv xs ys =
     (let n = length (hd xs); m = length (hd ys) in
      if n = m then Inr (map2 (\<lambda>x y. map2 fdiv x y) xs ys)
      else if m = 1 then Inr (map2 (\<lambda>x y. map (\<lambda>a. fdiv a (hd y)) x) xs ys)
      else if n = 1 then Inr (map2 (\<lambda>x y. map (\<lambda>b. fdiv (hd x) b) y) xs ys)
      else Inl RuntimeError)"

text \<open>
  \<^verbatim>\<open>alpha = 1.0 - th.stack(Ts)\<close> and \<^verbatim>\<open>depth = depth / alpha.clamp(0.05, 1.0)\<close>.
\<close>

definition alpha_of_T :: "fval list list \<Rightarrow> fval list list" where
  "alpha_of_T Ts = map (map (rsub 1.0)) Ts"

definition depth_divisor :: "fval list list \<Rightarrow> fval list list" where
  "depth_divisor alpha = map (map (fclamp 0.05 1.0)) alpha"

definition normalize_depth :: "fval list list \<Rightarrow> fval list list \<Rightarrow> error + fval list list" where
  "normalize_depth dep alpha = tdiv dep (depth_divisor alpha)"

definition AutoEncoder_render ::
  "('r, 'g) render_gs \<Rightarrow> nat \<Rightarrow> nat \<Rightarrow> mat list \<Rightarrow> 'r list \<Rightarrow> 'g render_preds
     \<Rightarrow> error + (fval list list \<times> fval list list \<times> fval list list)" where
  "AutoEncoder_render rgs width height K Rt preds =
     (let B = length K in
      bind (render_loop (render_call rgs width height K Rt preds) [0..<B]) (\<lambda>outs.
      bind (stack (map render outs)) (\<lambda>rgb.
      bind (stack (map depth outs)) (\<lambda>dep.
      bind (stack (map final_T outs)) (\<lambda>Ts.
        let alpha = alpha_of_T Ts in
        bind (normalize_depth dep alpha) (\<lambda>dep'.
          Inr (rgb, alpha, dep')))))))"

section \<open>Encoder.forward\<close>

text \<open>
  The encoder: its three scalars, the mode flag of the module (\<^verbatim>\<open>self.training\<close>) and its
  learned layers, which act on a whole batch (one row per batch element). \<open>texmod\<close> stands
  for the convolution stack followed by \<^verbatim>\<open>.view(-1, 256 * 4 * 4)\<close>.
\<close>

record encoder =
  noise_std :: real
  mean_scale :: real
  logvar_scale :: real
  training :: bool
  geommod :: "real list list \<Rightarrow> real list list"
  texmod :: "real list list \<Rightarrow> real list list"
  jointmod :: "real list list \<Rightarrow> real list list"
  mean :: "real list list \<Rightarrow> real list list"
  logvar :: "real list list \<Rightarrow> real list list"

record enc_preds =
  embs :: "real list list"
  embs_mu :: "real list list"
  embs_logvar :: "real list list"

text \<open>
  \<^verbatim>\<open>th.randn_like(t)\<close>: a tensor of the shape of \<open>t\<close> filled from the random generator. The
  generator's draw is the function \<open>rng\<close>, which gives the sample for each position; two
  runs differ in \<open>rng\<close>.
\<close>

definition randn_like :: "(nat \<Rightarrow> nat \<Rightarrow> real) \<Rightarrow> real list list \<Rightarrow> real list list" where
  "randn_like rng t = map (\<lambda>b. map (\<lambda>i. rng b i) [0..<length (t ! b)]) [0..<length t]"

definition Encoder_forward ::
  "encoder \<Rightarrow> (nat \<Rightarrow> nat \<Rightarrow> real) \<Rightarrow> real list list list \<Rightarrow> real list list \<Rightarrow> enc_preds" where
  "Encoder_forward e rng geom col =
     (let geomout = geommod e (map concat geom);
          texout = texmod e (map (map (\<lambda>c. c / 255.0 - 0.5)) col);
          encout = jointmod e (map2 (@) geomout texout);
          mu = map (map (\<lambda>x. x * mean_scale e)) (mean e encout);
          lv = map (map (\<lambda>x. x * logvar_scale e)) (logvar e encout);
          em = (if training e then
                  let noise = randn_like rng mu in
                  map2 (map2 (+)) mu
                    (map2 (map2 (\<lambda>l n. exp l * n * noise_std e)) lv noise)
                else mu)
      in \<lparr>embs = em, embs_mu = mu, embs_logvar = lv\<rparr>)"

section \<open>AutoEncoder.forward: head-relative coordinates\<close>

text \<open>
  One batch element of the block that converts everything into head-relative coordinates.
  \<open>head_pose\<close> is the 3 by 4 matrix \<open>[R | t]\<close>: \<^verbatim>\<open>head_pose[:3, :3]\<close> is \<open>R\<close> and
  \<^verbatim>\<open>head_pose[:3, 3]\<close> is \<open>t\<close>.
\<close>

definition pose_R :: "mat \<Rightarrow> mat" where
  "pose_R head_pose = map (take 3) (take 3 head_pose)"

definition pose_t :: "mat \<Rightarrow> vec" where
  "pose_t head_pose = map (\<lambda>row. row ! 3) (take 3 head_pose)"

text \<open>
  \<^verbatim>\<open>headrel_campos = ((campos - head_pose[:, :3, 3])[:, None] @ head_pose[:, :3, :3])[:, 0]\<close>
\<close>

definition headrel_campos :: "mat \<Rightarrow> vec \<Rightarrow> vec" where
  "headrel_campos head_pose campos = vecmat (vsub campos (pose_t head_pose)) (pose_R head_pose)"

text \<open>
  \<^verbatim>\<open>headrel_light_pos = (light_pos - head_pose[:, None, :3, 3]) @ head_pose[:, :3, :3]\<close>,
  one row per light.
\<close>

definition headrel_light_pos :: "mat \<Rightarrow> vec list \<Rightarrow> vec list" where
  "headrel_light_pos head_pose light_pos =
     map (\<lambda>l. vecmat (vsub l (pose_t head_pose)) (pose_R head_pose)) light_pos"

text \<open>\<^verbatim>\<open>headrel_light_dir = F.normalize(headrel_light_pos, p=2, dim=-1)\<close>\<close>

definition headrel_light_dir :: "mat \<Rightarrow> vec list \<Rightarrow> vec list" where
  "headrel_light_dir head_pose light_pos = map F_normalize (headrel_light_pos head_pose light_pos)"

text \<open>
  \<^verbatim>\<open>light_intensity.expand(-1, -1, 3)\<close> on one light: a single channel is repeated three
  times, three channels stay.
\<close>

definition expand3 :: "vec \<Rightarrow> vec" where
  "expand3 v = (if length v = 1 then replicate 3 (hd v) else v)"

text \<open>
  \<^verbatim>\<open>sh_coeffs = sh.dir2sh_torch(self.n_diff_sh, headrel_light_dir)\<close> and
  \<^verbatim>\<open>headrel_light_sh = (sh_coeffs[:, :, None] * light_intensity[..., None]).sum(dim=1)\<close>.
  The basis \<open>dir2sh\<close> is a parameter; a degree \<open>n\<close> has \<open>(n + 1)\<^sup>2\<close> coefficients, as in
  \<^verbatim>\<open>PrimDecoder.__init__\<close>. The product has one \<open>3 \<times> (n + 1)\<^sup>2\<close> table per light (colour
  channel by coefficient); the sum runs over the lights.
\<close>

definition n_sh_coeffs :: "nat \<Rightarrow> nat" where
  "n_sh_coeffs n = (n + 1)\<^sup>2"

definition light_sh_term :: "vec \<Rightarrow> vec \<Rightarrow> real list list" where
  "light_sh_term sh_coeffs intensity = map (\<lambda>i. map (\<lambda>s. s * i) sh_coeffs) intensity"

definition sum_dim :: "nat \<Rightarrow> nat \<Rightarrow> real list list list \<Rightarrow> real list list" where
  "sum_dim rows cols ts = foldr (map2 (map2 (+))) ts (replicate rows (replicate cols 0))"

definition headrel_light_sh ::
  "(nat \<Rightarrow> vec \<Rightarrow> vec) \<Rightarrow> nat \<Rightarrow> mat \<Rightarrow> vec list \<Rightarrow> vec list \<Rightarrow> real list list" where
  "headrel_light_sh dir2sh n_diff_sh head_pose light_pos light_intensity =
     (let intensity = map expand3 light_intensity;
          sh_coeffs = map (dir2sh n_diff_sh) (headrel_light_dir head_pose light_pos)
      in sum_dim 3 (n_sh_coeffs n_diff_sh) (map2 light_sh_term sh_coeffs intensity))"

text \<open>
  The notions the pose-invariance property is stated with: the 3 by 3 identity, an
  orthonormal matrix (its transpose is its inverse on both sides), and a rigid motion
  \<open>x \<mapsto> Q x + s\<close> applied to a point and to a pose \<open>[R | t]\<close>, which becomes
  \<open>[Q R | Q t + s]\<close>.
\<close>

definition I3 :: mat where
  "I3 = [[1, 0, 0], [0, 1, 0], [0, 0, 1]]"

definition orthonormal :: "mat \<Rightarrow> bool" where
  "orthonormal M \<longleftrightarrow> matmul (transpose M) M = I3 \<and> matmul M (transpose M) = I3"

definition rigid_point :: "mat \<Rightarrow> vec \<Rightarrow> vec \<Rightarrow> vec" where
  "rigid_point Q s x = vadd (matvec Q x) s"

definition rigid_pose :: "mat \<Rightarrow> vec \<Rightarrow> mat \<Rightarrow> mat" where
  "rigid_pose Q s head_pose =
     map2 (\<lambda>row t. row @ [t]) (matmul Q (pose_R head_pose)) (rigid_point Q s (pose_t head_pose))"

text \<open>A pose is 3 by 4, a rotation 3 by 3, a point has 3 coordinates.\<close>

definition has_shape :: "nat \<Rightarrow> nat \<Rightarrow> mat \<Rightarrow> bool" where
  "has_shape rows cols M \<longleftrightarrow> length M = rows \<and> list_all (\<lambda>row. length row = cols) M"

section \<open>PrimDecoder.forward\<close>

text \<open>
  The decoder, on one batch element: the two spherical-harmonics degrees, the learned
  albedo (one colour per Gaussian) and the learned layers. \<open>softplus\<close> and \<open>sigmoid\<close> are the
  float32 kernels \<^verbatim>\<open>F.softplus\<close> and \<^verbatim>\<open>th.sigmoid\<close> the decoder calls, kept as parameters:
  their values are fixed by the float32 arithmetic of the library, not by these files. \<open>vnocond_mod\<close> and \<open>vcond_mod\<close>
  stand for the convolution stacks followed by \<^verbatim>\<open>.permute(0, 2, 3, 1).view(B, -1, C)\<close>: they
  give one feature row per Gaussian, the channels in the order of the network's output;
  \<open>vcond_mod\<close> takes the encoded features and the view code it concatenates to them.
  \<open>geo_to_uv\<close> is \<^verbatim>\<open>geo_fn.to_uv(geom)\<close> and \<open>geo_vn_uv\<close> is \<^verbatim>\<open>geo_fn.to_uv(geo_fn.vn(geom))\<close>,
  both as one 3-vector per Gaussian.
\<close>

record ('f, 'g) PrimDecoder =
  diff_sh_degree :: nat
  color_sh_degree :: nat
  albedo :: "vec list"
  encmod :: "vec \<Rightarrow> 'f"
  vnocond_mod :: "'f \<Rightarrow> vec list"
  viewmod :: "vec \<Rightarrow> vec"
  vcond_mod :: "'f \<Rightarrow> vec \<Rightarrow> vec list"
  geo_to_uv :: "'g \<Rightarrow> vec list"
  geo_vn_uv :: "'g \<Rightarrow> vec list"
  softplus :: "real \<Rightarrow> real"
  sigmoid :: "real \<Rightarrow> real"

text \<open>
  The kernels that are not part of these files: \<^verbatim>\<open>dir2uv(ref_dirs, 2)\<close>,
  \<^verbatim>\<open>mipmap_grid_sample(envmap, uv, miplevel)[..., 0]\<close> (one row per colour channel, one entry
  per Gaussian) and \<^verbatim>\<open>evaluate_gaussian(ref_dirs, sigma, light_intensity, headrel_light_pos,
  primpos, n_lights, w_type)\<close> (one colour per Gaussian).
\<close>

record 'e kernels =
  dir2uv :: "vec list \<Rightarrow> nat \<Rightarrow> vec list"
  mipmap_grid_sample :: "'e \<Rightarrow> vec list \<Rightarrow> real list \<Rightarrow> real list list"
  evaluate_gaussian ::
    "vec list \<Rightarrow> real list \<Rightarrow> vec list \<Rightarrow> vec list \<Rightarrow> vec list \<Rightarrow> int \<Rightarrow> nat \<Rightarrow> vec list"

text \<open>
  The channel counts of \<^verbatim>\<open>__init__\<close>, as Python integers: the monochrome count is negative
  when the diffuse degree is below the colour degree.
\<close>

definition n_color_sh_coeffs :: "('f, 'g) PrimDecoder \<Rightarrow> nat" where
  "n_color_sh_coeffs d = (color_sh_degree d + 1)\<^sup>2"

definition n_mono_sh_coeffs :: "('f, 'g) PrimDecoder \<Rightarrow> int" where
  "n_mono_sh_coeffs d = (int (diff_sh_degree d) + 1)\<^sup>2 - int (n_color_sh_coeffs d)"

definition n_diff_coeffs :: "('f, 'g) PrimDecoder \<Rightarrow> int" where
  "n_diff_coeffs d = 3 * int (n_color_sh_coeffs d) + n_mono_sh_coeffs d"

text \<open>\<^verbatim>\<open>x[..., a:b]\<close> for \<open>0 \<le> a\<close> and \<open>0 \<le> b\<close>.\<close>

definition slice :: "nat \<Rightarrow> nat \<Rightarrow> 'a list \<Rightarrow> 'a list" where
  "slice a b xs = take (b - a) (drop a xs)"

text \<open>
  \<^verbatim>\<open>a * b\<close> on the last dimension where \<open>b\<close> may have a single entry that is broadcast
  (\<^verbatim>\<open>spec_vis\<close> has one channel).
\<close>

definition bmul :: "vec \<Rightarrow> vec \<Rightarrow> vec" where
  "bmul a b = (if length b = 1 then map (\<lambda>x. x * hd b) a else map2 (*) a b)"

text \<open>
  The diffuse coefficients of one Gaussian from its feature row \<open>f\<close> (\<open>n_diff_coeffs\<close> is
  positive, whatever the degrees): the first
  \<open>3 * n_color_sh_coeffs\<close> channels are reshaped to three rows, the remaining monochrome
  ones are repeated for the three colours and appended to each row.
\<close>

definition diff_shs_of :: "('f, 'g) PrimDecoder \<Rightarrow> vec \<Rightarrow> vec list" where
  "diff_shs_of d f =
     (let diff_shs = take (nat (n_diff_coeffs d)) f;
          nc = n_color_sh_coeffs d;
          diff_shs_color = take (nc * 3) diff_shs;
          diff_shs_mono = drop (nc * 3) diff_shs
      in map (\<lambda>c. slice (c * nc) ((c + 1) * nc) diff_shs_color @ diff_shs_mono) [0, 1, 2])"

text \<open>The Gaussian parameters of one Gaussian from its feature row.\<close>

definition f_geom_of :: "('f, 'g) PrimDecoder \<Rightarrow> vec \<Rightarrow> vec" where
  "f_geom_of d f = slice (nat (n_diff_coeffs d)) (nat (n_diff_coeffs d + 11)) f"

definition primpos_of :: "('f, 'g) PrimDecoder \<Rightarrow> vec \<Rightarrow> vec \<Rightarrow> vec" where
  "primpos_of d f primposbase = vadd (slice 0 3 (f_geom_of d f)) primposbase"

definition primqvec_of :: "('f, 'g) PrimDecoder \<Rightarrow> vec \<Rightarrow> vec" where
  "primqvec_of d f = F_normalize (slice 3 7 (f_geom_of d f))"

definition primscale_of :: "('f, 'g) PrimDecoder \<Rightarrow> vec \<Rightarrow> vec" where
  "primscale_of d f = map (softplus d) (slice 7 10 (f_geom_of d f))"

definition opacity_of :: "('f, 'g) PrimDecoder \<Rightarrow> vec \<Rightarrow> vec" where
  "opacity_of d f = map (sigmoid d) (slice 10 11 (f_geom_of d f))"

text \<open>
  Roughness: the channels after the Gaussian parameters, flattened over the Gaussians by
  \<^verbatim>\<open>.view(B, -1)\<close>, then \<^verbatim>\<open>(th.exp(sigma) * 0.1).clamp(min=0.01)\<close>.
\<close>

definition sigma_of :: "('f, 'g) PrimDecoder \<Rightarrow> vec list \<Rightarrow> real list" where
  "sigma_of d f_vnocond =
     map (\<lambda>s. clamp_min 0.01 (exp s * 0.1)) (concat (map (drop (nat (n_diff_coeffs d + 11))) f_vnocond))"

text \<open>Diffuse colour of one Gaussian: albedo times, per channel, the sum over the coefficients.\<close>

definition diff_color_of :: "vec \<Rightarrow> vec list \<Rightarrow> vec list \<Rightarrow> vec" where
  "diff_color_of alb diff_shs hlight_sh =
     map2 (*) alb (map2 (\<lambda>row light. sum_list (map2 (*) row light)) diff_shs hlight_sh)"

text \<open>
  \<^verbatim>\<open>view_local = F.normalize(primpos - headrel_campos[:, None], dim=-1, p=2.0)\<close> and
  \<^verbatim>\<open>ref_dirs = view_local - 2.0 * (view_local * spec_nml).sum(-1, keepdim=True) * spec_nml\<close>
\<close>

definition view_local_of :: "vec \<Rightarrow> vec \<Rightarrow> vec" where
  "view_local_of pos hcampos = F_normalize (vsub pos hcampos)"

definition reflect :: "vec \<Rightarrow> vec \<Rightarrow> vec" where
  "reflect view_local spec_nml =
     vsub view_local (smul (2.0 * sum_list (map2 (*) view_local spec_nml)) spec_nml)"

record dec_preds =
  color :: "vec list"
  opacity :: "vec list"
  primpos :: "vec list"
  primqvec :: "vec list"
  primscale :: "vec list"
  sigma :: "real list"
  spec_vis :: "vec list"
  spec_nml :: "vec list"
  spec_dnml :: "vec list"
  diff_color :: "vec list"
  spec_color :: "vec list"

text \<open>
  The values \<^verbatim>\<open>forward\<close> computes before the branch on \<^verbatim>\<open>preconv_envmap\<close>, as functions of
  its inputs. The arguments \<^verbatim>\<open>headrel_campos\<close>, \<^verbatim>\<open>headrel_light_pos\<close> and
  \<^verbatim>\<open>headrel_light_sh\<close> are written \<open>hcampos\<close>, \<open>hlight_pos\<close> and \<open>hlight_sh\<close>, the argument
  \<^verbatim>\<open>embs\<close> is written \<open>code\<close>.

  The normal map \<^verbatim>\<open>vn = F.normalize(self.geo_fn.to_uv(vn), dim=1)\<close> and the outputs of the
  view-independent and the view-dependent decoder:
\<close>

definition vn_of :: "('f, 'g) PrimDecoder \<Rightarrow> 'g \<Rightarrow> vec list" where
  "vn_of d geom = map F_normalize (geo_vn_uv d geom)"

definition f_vnocond_of :: "('f, 'g) PrimDecoder \<Rightarrow> vec \<Rightarrow> vec list" where
  "f_vnocond_of d code = vnocond_mod d (encmod d code)"

definition f_vcond_of :: "('f, 'g) PrimDecoder \<Rightarrow> vec \<Rightarrow> vec \<Rightarrow> vec list" where
  "f_vcond_of d code hcampos = vcond_mod d (encmod d code) (viewmod d (F_normalize hcampos))"

text \<open>
  The positions \<^verbatim>\<open>primpos = f_geom[..., 0:3] + primposbase\<close>, the specular normals before
  their normalisation (\<^verbatim>\<open>spec_dnml + vn\<close>) and the reflection directions.
\<close>

definition primpos_all :: "('f, 'g) PrimDecoder \<Rightarrow> vec \<Rightarrow> 'g \<Rightarrow> vec list" where
  "primpos_all d code geom = map2 (primpos_of d) (f_vnocond_of d code) (geo_to_uv d geom)"

definition spec_nml_raw :: "('f, 'g) PrimDecoder \<Rightarrow> vec \<Rightarrow> 'g \<Rightarrow> vec \<Rightarrow> vec list" where
  "spec_nml_raw d code geom hcampos =
     map2 vadd (map (drop 1) (f_vcond_of d code hcampos)) (vn_of d geom)"

definition ref_dirs_of :: "('f, 'g) PrimDecoder \<Rightarrow> vec \<Rightarrow> 'g \<Rightarrow> vec \<Rightarrow> vec list" where
  "ref_dirs_of d code geom hcampos =
     map2 reflect (map (\<lambda>p. view_local_of p hcampos) (primpos_all d code geom))
       (map F_normalize (spec_nml_raw d code geom hcampos))"

text \<open>
  The specular colour: the branch on \<^verbatim>\<open>preconv_envmap\<close>. With the environment map given
  and \<^verbatim>\<open>lightrot\<close> left at \<^verbatim>\<open>None\<close> the \<^verbatim>\<open>einsum\<close> raises. \<^verbatim>\<open>spec_color.permute(0, 2, 1)\<close>
  turns the sampler's rows per channel into one colour per Gaussian.
\<close>

definition specular ::
  "'e kernels \<Rightarrow> vec list \<Rightarrow> real list \<Rightarrow> vec list \<Rightarrow> vec list \<Rightarrow> vec list \<Rightarrow> vec list
     \<Rightarrow> int \<Rightarrow> 'e option \<Rightarrow> mat option \<Rightarrow> error + vec list" where
  "specular k ref_dirs sig vis pos light_intensity hlight_pos n_lights preconv_envmap lightrot =
     (case preconv_envmap of
        Some env \<Rightarrow>
          (case lightrot of
             None \<Rightarrow> Inl TypeError
           | Some rot \<Rightarrow>
               (let ref_rot = map (matvec rot) ref_dirs;
                    ref_uv = dir2uv k ref_rot 2;
                    miplevel = map (\<lambda>s. s * 5) sig;
                    sample = mipmap_grid_sample k env ref_uv miplevel
                in Inr (map2 (\<lambda>c v. bmul (map (clamp_max 1.0) c) v) (transpose sample) vis)))
      | None \<Rightarrow>
          Inr (map2 bmul
                 (evaluate_gaussian k ref_dirs sig light_intensity hlight_pos pos n_lights 0)
                 vis))"

text \<open>
  \<^verbatim>\<open>forward\<close>, from the inputs to the dictionary it returns. The reshape of the monochrome
  block, \<^verbatim>\<open>diff_shs[..., self.n_color_sh_coeffs * 3:].reshape(B, -1, 1, self.n_mono_sh_coeffs)\<close>,
  raises \<^verbatim>\<open>RuntimeError\<close> when \<open>n_mono_sh_coeffs\<close> is zero (the dimension \<open>-1\<close> is ambiguous
  on a tensor of no elements) or negative (not a shape): the decoder runs only with a
  diffuse degree above the colour degree. The elementwise operations are written with
  \<open>map2\<close>, for operands that have one entry per Gaussian; the statements below that speak
  of the number of entries carry this as a hypothesis.
\<close>

definition PrimDecoder_forward ::
  "('f, 'g) PrimDecoder \<Rightarrow> 'e kernels \<Rightarrow> vec \<Rightarrow> 'g \<Rightarrow> vec \<Rightarrow> vec list \<Rightarrow> vec list
     \<Rightarrow> vec list \<Rightarrow> int \<Rightarrow> 'e option \<Rightarrow> mat option \<Rightarrow> error + dec_preds" where
  "PrimDecoder_forward d k code geom hcampos light_intensity hlight_pos hlight_sh n_lights
       preconv_envmap lightrot =
     (if n_mono_sh_coeffs d \<le> 0 then Inl RuntimeError else
      let f_vnocond = f_vnocond_of d code;
          f_vcond = f_vcond_of d code hcampos;
          diff_shs = map (diff_shs_of d) f_vnocond;
          pos = primpos_all d code geom;
          qvec = map (primqvec_of d) f_vnocond;
          scale = map (primscale_of d) f_vnocond;
          opa = map (opacity_of d) f_vnocond;
          sig = sigma_of d f_vnocond;
          vis = map (\<lambda>fc. map (sigmoid d) (take 1 fc)) f_vcond;
          dnml = map (drop 1) f_vcond;
          nml = map F_normalize (spec_nml_raw d code geom hcampos);
          dcol = map2 (\<lambda>a sh. diff_color_of a sh hlight_sh) (albedo d) diff_shs;
          ref_dirs = ref_dirs_of d code geom hcampos
      in bind (specular k ref_dirs sig vis pos light_intensity hlight_pos n_lights
                 preconv_envmap lightrot) (\<lambda>scol.
           Inr \<lparr>color = map2 (\<lambda>dc sc. map (clamp_min 0.0) (vadd dc sc)) dcol scol,
                opacity = opa, primpos = pos, primqvec = qvec, primscale = scale, sigma = sig,
                spec_vis = vis, spec_nml = nml, spec_dnml = dnml, diff_color = dcol,
                spec_color = scol\<rparr>))"

text \<open>
  A small decoder used for the concrete instances below: diffuse degree 1 and colour
  degree 0 (so a feature row has 3 colour and 3 monochrome diffuse channels, 11 geometric
  channels and 1 roughness channel), one Gaussian with feature rows \<open>f\<close> and \<open>fc\<close>, base
  position \<open>base\<close> and mesh normal \<open>n\<close>, and albedo \<open>(1, 1, 1)\<close>. Its \<open>softplus\<close> and \<open>sigmoid\<close>
  saturate as the float32 kernels do: \<open>sigmoid\<close> is exactly 1 from 17 on and exactly 0 from
  -104 down, \<open>softplus\<close> is the identity above its threshold 20 and exactly 0 below -104.
\<close>

abbreviation one_gaussian :: "vec \<Rightarrow> vec \<Rightarrow> vec \<Rightarrow> vec \<Rightarrow> (unit, unit) PrimDecoder" where
  "one_gaussian f fc base n \<equiv>
     \<lparr>diff_sh_degree = 1, color_sh_degree = 0, albedo = [[1, 1, 1]], encmod = (\<lambda>c. ()),
      vnocond_mod = (\<lambda>e. [f]), viewmod = (\<lambda>v. v), vcond_mod = (\<lambda>e v. [fc]),
      geo_to_uv = (\<lambda>g. [base]), geo_vn_uv = (\<lambda>g. [n]),
      softplus = (\<lambda>x. if 20 < x then x else if x < - 104 then 0 else ln (1 + exp x)),
      sigmoid = (\<lambda>x. if 17 \<le> x then 1 else if x \<le> - 104 then 0 else 1 / (1 + exp (- x)))\<rparr>"

text \<open>
  Kernels for the concrete instances. The sampler returns, per Gaussian, the two
  coordinates it is asked to sample at and the mip level, as the three colour channels;
  the point-light kernel returns the direction it is given scaled by the roughness.
\<close>

abbreviation test_kernels :: "unit kernels" where
  "test_kernels \<equiv>
     \<lparr>dir2uv = (\<lambda>dirs n. map (take n) dirs),
      mipmap_grid_sample = (\<lambda>env uv miplevel. [map (\<lambda>u. u ! 0) uv, map (\<lambda>u. u ! 1) uv, miplevel]),
      evaluate_gaussian = (\<lambda>dirs sig li lp pos nl w. map2 (\<lambda>r s. map (\<lambda>x. x * s) r) dirs sig)\<rparr>"

section \<open>RGCASummary\<close>

text \<open>
  The summary reads the dictionaries \<^verbatim>\<open>preds\<close> and \<^verbatim>\<open>batch\<close> and builds the dictionary
  \<^verbatim>\<open>diag\<close>. A tensor is its buffer of values. The image functions that are not part of these
  files are parameters: \<^verbatim>\<open>linear2srgb\<close>, \<^verbatim>\<open>scale_diff_image\<close>, \<^verbatim>\<open>depth2normals\<close>,
  \<^verbatim>\<open>make_grid(v, nrow=16)\<close>; so are three layout steps of the summary: \<open>slab C\<close> (the
  zero image of \<open>C\<close> channels filled with the first \<open>1024 * 1024\<close> Gaussians through
  \<^verbatim>\<open>.view\<close> and \<^verbatim>\<open>.permute\<close>), \<open>light_probe\<close> (the lighting evaluated on the two half spheres,
  masked and divided by its maximum) and \<open>expand_rgb\<close> (\<^verbatim>\<open>.expand(-1, 3, -1, -1)\<close>).
\<close>

record image_ops =
  linear2srgb :: "real list \<Rightarrow> real list"
  scale_diff_image :: "real list \<Rightarrow> real list"
  depth2normals :: "real list \<Rightarrow> real list \<Rightarrow> real list \<Rightarrow> real list"
  make_grid :: "real list \<Rightarrow> real list"
  slab :: "nat \<Rightarrow> real list \<Rightarrow> real list"
  light_probe :: "real list \<Rightarrow> real list"
  expand_rgb :: "real list \<Rightarrow> real list"

text \<open>\<^verbatim>\<open>d[key]\<close> raises \<^verbatim>\<open>KeyError\<close> on a missing key.\<close>

definition lookup :: "(string \<rightharpoonup> 'a) \<Rightarrow> string \<Rightarrow> error + 'a" where
  "lookup m key = (case m key of None \<Rightarrow> Inl (KeyError key) | Some v \<Rightarrow> Inr v)"

text \<open>
  The last loop: \<^verbatim>\<open>make_grid(255.0 * v, nrow=16).clip(0, 255).to(th.uint8)\<close>; the conversion
  to \<^verbatim>\<open>uint8\<close> of a value in \<open>[0, 255]\<close> drops its fraction.
\<close>

definition to_grid :: "image_ops \<Rightarrow> real list \<Rightarrow> real list" where
  "to_grid ops v =
     map (\<lambda>x. of_int \<lfloor>x\<rfloor>) (map (clamp 0 255) (make_grid ops (map (\<lambda>x. 255.0 * x) v)))"

text \<open>
  The difference image of the branch \<^verbatim>\<open>if "image" in batch\<close>:
  \<^verbatim>\<open>diff = (preds["rgb"] - batch["image"]).clamp(-1, 1)\<close>, then
  \<^verbatim>\<open>diff = scale_diff_image(diff)\<close>, stored as \<^verbatim>\<open>diff.clamp(0, 1)\<close>.
\<close>

definition diff_image :: "image_ops \<Rightarrow> real list \<Rightarrow> real list \<Rightarrow> real list" where
  "diff_image ops rgb gt =
     map (clamp 0 1) (scale_diff_image ops (map (clamp (-1) 1) (vsub rgb gt)))"

text \<open>
  The dictionary \<^verbatim>\<open>diag\<close> before the last loop, from the values read from \<^verbatim>\<open>preds\<close> and
  \<^verbatim>\<open>batch\<close>: the seven slabs, the light probe, the entries \<^verbatim>\<open>"gt"\<close> and \<^verbatim>\<open>"diff"\<close> of the
  branch \<^verbatim>\<open>if "image" in batch\<close>, then \<^verbatim>\<open>"render"\<close> and \<^verbatim>\<open>"alpha"\<close>, the entries of the
  branches \<^verbatim>\<open>if "image_weight" in preds\<close> and \<^verbatim>\<open>if "mesh_nml" in preds\<close>, and \<^verbatim>\<open>"depth_nml"\<close>.
  The value of \<^verbatim>\<open>make_image_grid_batched\<close> and \<^verbatim>\<open>cv2.resize\<close> is not used and is left out.
\<close>

definition build_diag ::
  "image_ops \<Rightarrow> (string \<rightharpoonup> real list) \<Rightarrow> (string \<rightharpoonup> real list)
     \<Rightarrow> real list \<Rightarrow> real list \<Rightarrow> real list \<Rightarrow> real list \<Rightarrow> real list \<Rightarrow> real list
     \<Rightarrow> real list \<Rightarrow> real list \<Rightarrow> real list \<Rightarrow> real list \<Rightarrow> real list \<Rightarrow> real list
     \<Rightarrow> (string \<rightharpoonup> real list)" where
  "build_diag ops preds batch dc sc opa nml sig vis light_sh rgb alpha dep focal princpt =
     (let dcol = map (clamp 0 1) dc;
          scol = map (clamp 0 1) sc;
          opac = map (clamp 0 1) opa;
          spec_normal = map (\<lambda>x. x * 0.5 + 0.5) nml;
          spec_rough = map (clamp 0 1) sig;
          svis = map (clamp 0 1) vis;
          col = vadd dcol scol;
          diag1 = [''sh_slab'' \<mapsto> map (clamp 0 1) (linear2srgb ops (slab ops 3 col)),
                   ''diff_sh_slab'' \<mapsto> map (clamp 0 1) (linear2srgb ops (slab ops 3 dcol)),
                   ''spec_slab'' \<mapsto> map (clamp 0 1) (linear2srgb ops (slab ops 3 scol)),
                   ''spec_normal_slab'' \<mapsto> map (clamp 0 1) (slab ops 3 spec_normal),
                   ''spec_vis_slab'' \<mapsto> map (clamp 0 1) (slab ops 1 svis),
                   ''spec_rough_slab'' \<mapsto> map (clamp 0 1) (slab ops 1 spec_rough),
                   ''opacity_slab'' \<mapsto> map (clamp 0 1) (slab ops 1 opac)];
          diag2 = diag1(''light_sh'' \<mapsto> light_probe ops light_sh);
          rendered = map (clamp 0 1) (linear2srgb ops rgb);
          diag3 = (case batch ''image'' of
                     None \<Rightarrow> diag2
                   | Some gt \<Rightarrow>
                       diag2(''gt'' \<mapsto> map (clamp 0 1) (linear2srgb ops gt),
                             ''diff'' \<mapsto> diff_image ops rgb gt));
          diag4 = diag3(''render'' \<mapsto> rendered);
          alpha3 = expand_rgb ops (map (clamp 0 1) alpha);
          diag5 = diag4(''alpha'' \<mapsto> alpha3);
          diag6 = (case preds ''image_weight'' of
                     None \<Rightarrow> diag5
                   | Some w \<Rightarrow> diag5(''weight'' \<mapsto> w));
          diag7 = (case preds ''mesh_nml'' of
                     None \<Rightarrow> diag6
                   | Some m \<Rightarrow> diag6(''mesh_nml'' \<mapsto> map (\<lambda>x. 0.5 * (- x) + 0.5) m));
          depth_nml = map2 (\<lambda>a n. a * (0.5 * (- n) + 0.5) + (1.0 - a) * 0.5) alpha3
                        (depth2normals ops dep focal princpt)
      in diag7(''depth_nml'' \<mapsto> depth_nml))"

text \<open>
  \<^verbatim>\<open>__call__\<close>: the reads of \<^verbatim>\<open>preds\<close> and \<^verbatim>\<open>batch\<close> in the order of the code, each raising
  \<^verbatim>\<open>KeyError\<close> on a missing key, and the dictionary returned after the last loop.
\<close>

definition RGCASummary_call ::
  "image_ops \<Rightarrow> (string \<rightharpoonup> real list) \<Rightarrow> (string \<rightharpoonup> real list)
     \<Rightarrow> error + (string \<rightharpoonup> real list)" where
  "RGCASummary_call ops preds batch =
     bind (lookup preds ''diff_color'') (\<lambda>dc.
     bind (lookup preds ''spec_color'') (\<lambda>sc.
     bind (lookup preds ''opacity'') (\<lambda>opa.
     bind (lookup preds ''spec_nml'') (\<lambda>nml.
     bind (lookup preds ''sigma'') (\<lambda>sig.
     bind (lookup preds ''spec_vis'') (\<lambda>vis.
     bind (lookup preds ''headrel_light_sh'') (\<lambda>light_sh.
     bind (lookup preds ''rgb'') (\<lambda>rgb.
     bind (lookup preds ''alpha'') (\<lambda>alpha.
     bind (lookup preds ''depth'') (\<lambda>dep.
     bind (lookup batch ''focal'') (\<lambda>focal.
     bind (lookup batch ''princpt'') (\<lambda>princpt.
       Inr (\<lambda>key. map_option (to_grid ops)
              (build_diag ops preds batch dc sc opa nml sig vis light_sh rgb alpha dep focal
                 princpt key))))))))))))))"

text \<open>
  Image functions and dictionaries for the concrete instances of the summary: every tensor
  has two values, the predicted image is \<open>(1, 0)\<close>.
\<close>

abbreviation test_ops :: image_ops where
  "test_ops \<equiv>
     \<lparr>linear2srgb = (\<lambda>x. x), scale_diff_image = map (\<lambda>x. (x + 1) / 2),
      depth2normals = (\<lambda>d f p. d), make_grid = (\<lambda>x. x), slab = (\<lambda>c x. x),
      light_probe = (\<lambda>x. x), expand_rgb = (\<lambda>x. x)\<rparr>"

abbreviation test_preds :: "string \<rightharpoonup> real list" where
  "test_preds \<equiv>
     [''diff_color'' \<mapsto> [1 / 2, 1 / 2], ''spec_color'' \<mapsto> [1 / 2, 1 / 2],
      ''opacity'' \<mapsto> [1 / 2, 1 / 2], ''spec_nml'' \<mapsto> [1 / 2, 1 / 2],
      ''sigma'' \<mapsto> [1 / 2, 1 / 2], ''spec_vis'' \<mapsto> [1 / 2, 1 / 2],
      ''headrel_light_sh'' \<mapsto> [1 / 2, 1 / 2], ''rgb'' \<mapsto> [1, 0], ''alpha'' \<mapsto> [1 / 2, 1 / 2],
      ''depth'' \<mapsto> [1 / 2, 1 / 2]]"

section \<open>The test driver\<close>

text \<open>
  The configuration: the sections \<^verbatim>\<open>main\<close> reads. A section is a value of type \<open>'c\<close>;
  \<^verbatim>\<open>config.test\<close> is the dictionary whose entries \<^verbatim>\<open>"ckpt"\<close> and \<^verbatim>\<open>"data"\<close> are looked up.
\<close>

record 'c config =
  data :: 'c
  model :: 'c
  loss :: 'c
  dataloader :: 'c
  test :: "string \<rightharpoonup> 'c"
  summary :: 'c

text \<open>
  The model object as \<^verbatim>\<open>main\<close> uses it: its weights, the mode set by \<^verbatim>\<open>.eval()\<close> and the
  two flags \<^verbatim>\<open>main\<close> switches off.
\<close>

record 'w net =
  weights :: 'w
  net_training :: bool
  learn_blur_enabled :: bool
  cal_enabled :: bool

text \<open>
  The collaborators outside these files: \<^verbatim>\<open>load_from_config\<close> builds the model from its
  section, \<^verbatim>\<open>load_checkpoint\<close> replaces the weights of the module it is given.
\<close>

record ('c, 'w) externals =
  load_from_config :: "'c \<Rightarrow> 'w net"
  load_checkpoint :: "'c \<Rightarrow> 'w \<Rightarrow> 'w"

text \<open>
  What \<^verbatim>\<open>main\<close> does to the outside, in order: datasets and loaders built (the flag of
  \<open>DataLoader\<close> tells whether \<^verbatim>\<open>shuffle\<close> was overridden to \<^verbatim>\<open>False\<close>), objects loaded from
  the configuration, the checkpoint loaded, and the call of \<^verbatim>\<open>test\<close>, inside which the test
  batches are processed, with the model it is given. Log lines are left out.
\<close>

datatype ('c, 'w) event =
    BodyDataset 'c
  | LoadFromConfig 'c
  | DataLoader 'c bool
  | LoadCheckpoint 'c
  | Test "'w net"

text \<open>
  \<^verbatim>\<open>main\<close> returns the events so far and either the exception raised or \<open>()\<close>. The
  configuration library's error on a missing \<^verbatim>\<open>config.test.data\<close> is written \<open>KeyError\<close>.
\<close>

definition main :: "('c, 'w) externals \<Rightarrow> 'c config \<Rightarrow> ('c, 'w) event list \<times> (error + unit)" where
  "main ext cfg =
     (let tr0 = [BodyDataset (data cfg), LoadFromConfig (model cfg), LoadFromConfig (loss cfg),
                 DataLoader (dataloader cfg) False];
          m0 = (load_from_config ext (model cfg))\<lparr>net_training := False\<rparr>
      in case test cfg ''ckpt'' of
           None \<Rightarrow> (tr0, Inl (ValueError ''No checkpoint provided''))
         | Some ckpt \<Rightarrow>
             (let m1 = m0\<lparr>weights := load_checkpoint ext ckpt (weights m0)\<rparr>;
                  tr1 = tr0 @ [LoadCheckpoint ckpt]
              in case test cfg ''data'' of
                   None \<Rightarrow> (tr1, Inl (KeyError ''data''))
                 | Some td \<Rightarrow>
                     (let tr2 = tr1 @ [BodyDataset td, DataLoader (dataloader cfg) True];
                          m2 = m1\<lparr>learn_blur_enabled := False, cal_enabled := False\<rparr>;
                          tr3 = tr2 @ [LoadFromConfig (summary cfg), Test m2]
                      in (tr3, Inr ()))))"

section \<open>Properties of AutoEncoder.render\<close>

lemma clamp_lower: "lo \<le> hi \<Longrightarrow> lo \<le> clamp lo hi x"
  by (simp add: clamp_def)

lemma clamp_upper: "clamp lo hi x \<le> hi"
  by (simp add: clamp_def)

lemma bind_Inr [simp]: "bind (Inr x) f = f x"
  by (simp add: bind_def)

lemma bind_Inl [simp]: "bind (Inl e) f = Inl e"
  by (simp add: bind_def)

lemma bind_eq_Inr: "bind m f = Inr y \<Longrightarrow> \<exists>x. m = Inr x \<and> f x = Inr y"
  by (cases m) simp_all

lemma index_in_range [simp]: "i < length xs \<Longrightarrow> index xs i = Inr (xs ! i)"
  by (simp add: index_def)

lemma render_loop_ok:
  "(\<And>b. b \<in> set bs \<Longrightarrow> call b = Inr (f b)) \<Longrightarrow> render_loop call bs = Inr (map f bs)"
  by (induction bs) simp_all

lemma render_loop_Inr:
  "render_loop call bs = Inr outs \<Longrightarrow>
   length outs = length bs \<and> (\<forall>i < length bs. call (bs ! i) = Inr (outs ! i))"
proof (induction bs arbitrary: outs)
  case Nil
  then show ?case by simp
next
  case (Cons b bs)
  from Cons.prems obtain out where out: "call b = Inr out"
    and rest: "bind (render_loop call bs) (\<lambda>outs. Inr (out # outs)) = Inr outs"
    by (auto dest!: bind_eq_Inr)
  from rest obtain outs' where outs': "render_loop call bs = Inr outs'" "outs = out # outs'"
    by (auto dest!: bind_eq_Inr)
  from Cons.IH [OF outs'(1)] out outs'(2) show ?case
    by (auto simp: nth_Cons split: nat.splits)
qed

lemma stack_ok:
  assumes "ts \<noteq> []" and "\<And>t. t \<in> set ts \<Longrightarrow> length t = length (hd ts)"
  shows "stack ts = Inr ts"
proof -
  have "\<forall>t \<in> set ts. length t = length (hd ts)"
    using assms(2) by (rule ballI)
  then have "list_all (\<lambda>t. length t = length (hd ts)) ts"
    by (rule list_all_iff [THEN iffD2])
  with assms(1) show ?thesis
    unfolding stack_def by (simp only: if_False if_True)
qed

lemma stack_Inr:
  assumes "stack ts = Inr r"
  shows "r = ts" and "ts \<noteq> []" and "\<forall>i < length ts. length (ts ! i) = length (hd ts)"
proof -
  from assms have ne: "ts \<noteq> []" and la: "list_all (\<lambda>t. length t = length (hd ts)) ts" and r: "r = ts"
    by (auto simp: stack_def split: if_splits)
  show "r = ts" by (rule r)
  show "ts \<noteq> []" by (rule ne)
  from la have "\<forall>t \<in> set ts. length t = length (hd ts)"
    by (rule list_all_iff [THEN iffD1])
  then show "\<forall>i < length ts. length (ts ! i) = length (hd ts)"
    by (metis nth_mem)
qed

lemma stack_map_upt:
  assumes "0 < B" and "\<And>b. b < B \<Longrightarrow> length (f b) = length (f 0)"
  shows "stack (map f [0..<B]) = Inr (map f [0..<B])"
proof (rule stack_ok)
  show "map f [0..<B] \<noteq> []"
    using assms(1) by simp
  have "hd (map f [0..<B]) = map f [0..<B] ! 0"
    using assms(1) by (intro hd_conv_nth) simp
  also have "\<dots> = f 0"
    using assms(1) by simp
  finally have hd: "hd (map f [0..<B]) = f 0" .
  fix t assume "t \<in> set (map f [0..<B])"
  then obtain b where b: "b < B" "t = f b"
    by auto
  from assms(2) [OF b(1)] show "length t = length (hd (map f [0..<B]))"
    unfolding hd b(2) .
qed

text \<open>The divisor of one pixel: never zero, and a number of \<open>[0.05, 1]\<close> unless it is NaN.\<close>

lemma rsub_NaN: "rsub c x = NaN \<longleftrightarrow> x = NaN"
  by (cases x) (simp_all add: rsub_def)

lemma fclamp_range:
  "x = NaN \<and> fclamp 0.05 1 x = NaN \<or> (\<exists>v. fclamp 0.05 1 x = Val v \<and> 0.05 \<le> v \<and> v \<le> 1)"
proof (cases x)
  case (Val r)
  have "(0.05::real) \<le> clamp 0.05 1 r" "clamp 0.05 1 r \<le> (1::real)"
    by (simp_all add: clamp_def)
  moreover from Val have "fclamp 0.05 1 x = Val (clamp 0.05 1 r)"
    by (simp add: fclamp_def)
  ultimately show ?thesis by blast
next
  case PosInf
  then have "fclamp 0.05 1 x = Val 1 \<and> (0.05::real) \<le> 1 \<and> (1::real) \<le> 1"
    by (simp add: fclamp_def)
  then show ?thesis by blast
next
  case NegInf
  then have "fclamp 0.05 1 x = Val 0.05 \<and> (0.05::real) \<le> 0.05 \<and> (0.05::real) \<le> 1"
    by (simp add: fclamp_def)
  then show ?thesis by blast
next
  case NaN
  then show ?thesis by (simp add: fclamp_def)
qed

lemma fclamp_not_zero: "fclamp 0.05 1 x \<noteq> Val 0"
  by (cases x) (simp_all add: fclamp_def clamp_def)

text \<open>The division, row by row.\<close>

lemma map2_single:
  assumes "length x = 1" and "length y = 1"
  shows "map2 f x y = map (\<lambda>a. f a (y ! 0)) x" and "map2 f x y = map (\<lambda>c. f (x ! 0) c) y"
proof -
  from assms obtain a c where "x = [a]" "y = [c]"
    by (cases x; cases y) auto
  then show "map2 f x y = map (\<lambda>a. f a (y ! 0)) x" and "map2 f x y = map (\<lambda>c. f (x ! 0) c) y"
    by simp_all
qed

lemma tdiv_row:
  assumes r: "tdiv xs ys = Inr r" and len: "length xs = length ys" and b: "b < length xs"
    and xs: "\<forall>i < length xs. length (xs ! i) = length (hd xs)"
    and ys: "\<forall>i < length ys. length (ys ! i) = length (hd ys)"
  shows "length r = length xs"
    and "length (xs ! b) = length (ys ! b) \<or> length (ys ! b) = 1 \<or> length (xs ! b) = 1"
    and "length (xs ! b) = length (ys ! b) \<Longrightarrow> r ! b = map2 fdiv (xs ! b) (ys ! b)"
    and "length (ys ! b) = 1 \<Longrightarrow> r ! b = map (\<lambda>a. fdiv a (ys ! b ! 0)) (xs ! b)"
    and "length (xs ! b) = 1 \<Longrightarrow> r ! b = map (\<lambda>c. fdiv (xs ! b ! 0) c) (ys ! b)"
proof -
  from xs b have lx: "length (hd xs) = length (xs ! b)" by simp
  from ys b len have ly: "length (hd ys) = length (ys ! b)" by simp
  have hy: "hd y = y ! 0" if "length y = 1" for y :: "fval list"
    using that by (intro hd_conv_nth) auto
  consider (eq) "length (xs ! b) = length (ys ! b)"
    | (y1) "length (xs ! b) \<noteq> length (ys ! b)" "length (ys ! b) = 1"
    | (x1) "length (xs ! b) \<noteq> length (ys ! b)" "length (ys ! b) \<noteq> 1" "length (xs ! b) = 1"
    using r unfolding tdiv_def Let_def lx ly by (auto split: if_splits)
  then have "length r = length xs
    \<and> (length (xs ! b) = length (ys ! b) \<or> length (ys ! b) = 1 \<or> length (xs ! b) = 1)
    \<and> (length (xs ! b) = length (ys ! b) \<longrightarrow> r ! b = map2 fdiv (xs ! b) (ys ! b))
    \<and> (length (ys ! b) = 1 \<longrightarrow> r ! b = map (\<lambda>a. fdiv a (ys ! b ! 0)) (xs ! b))
    \<and> (length (xs ! b) = 1 \<longrightarrow> r ! b = map (\<lambda>c. fdiv (xs ! b ! 0) c) (ys ! b))"
  proof cases
    case eq
    with r have "r = map2 (\<lambda>x y. map2 fdiv x y) xs ys"
      unfolding tdiv_def Let_def lx ly by simp
    with b len have "length r = length xs" "r ! b = map2 fdiv (xs ! b) (ys ! b)"
      by simp_all
    then have "length (ys ! b) = 1 \<longrightarrow> r ! b = map (\<lambda>a. fdiv a (ys ! b ! 0)) (xs ! b)"
      and "length (xs ! b) = 1 \<longrightarrow> r ! b = map (\<lambda>c. fdiv (xs ! b ! 0) c) (ys ! b)"
      using eq map2_single [of "xs ! b" "ys ! b" fdiv] by simp_all
    with eq \<open>length r = length xs\<close> \<open>r ! b = map2 fdiv (xs ! b) (ys ! b)\<close> show ?thesis
      by blast
  next
    case y1
    with r have "r = map2 (\<lambda>x y. map (\<lambda>a. fdiv a (hd y)) x) xs ys"
      unfolding tdiv_def Let_def lx ly by simp
    with b len have "length r = length xs" "r ! b = map (\<lambda>a. fdiv a (hd (ys ! b))) (xs ! b)"
      by simp_all
    with y1 show ?thesis
      by (simp add: hy)
  next
    case x1
    with r have "r = map2 (\<lambda>x y. map (\<lambda>b. fdiv (hd x) b) y) xs ys"
      unfolding tdiv_def Let_def lx ly by simp
    with b len have "length r = length xs" "r ! b = map (\<lambda>c. fdiv (hd (xs ! b)) c) (ys ! b)"
      by simp_all
    with x1 show ?thesis
      by (simp add: hy)
  qed
  then show "length r = length xs"
    and "length (xs ! b) = length (ys ! b) \<or> length (ys ! b) = 1 \<or> length (xs ! b) = 1"
    and "length (xs ! b) = length (ys ! b) \<Longrightarrow> r ! b = map2 fdiv (xs ! b) (ys ! b)"
    and "length (ys ! b) = 1 \<Longrightarrow> r ! b = map (\<lambda>a. fdiv a (ys ! b ! 0)) (xs ! b)"
    and "length (xs ! b) = 1 \<Longrightarrow> r ! b = map (\<lambda>c. fdiv (xs ! b ! 0) c) (ys ! b)"
    by blast+
qed

lemma tdiv_returns:
  assumes "length (hd xs) = length (hd ys) \<or> length (hd ys) = 1 \<or> length (hd xs) = 1"
  shows "\<exists>r. tdiv xs ys = Inr r"
  using assms by (auto simp: tdiv_def Let_def)

text \<open>What a returning \<^verbatim>\<open>render\<close> has computed.\<close>

lemma render_Inr:
  assumes "AutoEncoder_render rgs width height K Rt preds = Inr (rgb, alpha, dep)"
  obtains outs where
    "render_loop (render_call rgs width height K Rt preds) [0..<length K] = Inr outs"
    "stack (map render outs) = Inr rgb"
    "stack (map depth outs) = Inr (map depth outs)"
    "stack (map final_T outs) = Inr (map final_T outs)"
    "alpha = alpha_of_T (map final_T outs)"
    "tdiv (map depth outs) (depth_divisor alpha) = Inr dep"
proof -
  from assms obtain outs where
    1: "render_loop (render_call rgs width height K Rt preds) [0..<length K] = Inr outs"
    and "bind (stack (map render outs)) (\<lambda>rgb.
      bind (stack (map depth outs)) (\<lambda>dep.
      bind (stack (map final_T outs)) (\<lambda>Ts.
        bind (normalize_depth dep (alpha_of_T Ts)) (\<lambda>dep'.
          Inr (rgb, alpha_of_T Ts, dep'))))) = Inr (rgb, alpha, dep)"
    unfolding AutoEncoder_render_def Let_def by (auto dest!: bind_eq_Inr)
  then obtain rgb' where 2: "stack (map render outs) = Inr rgb'"
    and "bind (stack (map depth outs)) (\<lambda>dep.
      bind (stack (map final_T outs)) (\<lambda>Ts.
        bind (normalize_depth dep (alpha_of_T Ts)) (\<lambda>dep'.
          Inr (rgb', alpha_of_T Ts, dep')))) = Inr (rgb, alpha, dep)"
    by (auto dest!: bind_eq_Inr)
  then obtain d where 3: "stack (map depth outs) = Inr d"
    and "bind (stack (map final_T outs)) (\<lambda>Ts.
        bind (normalize_depth d (alpha_of_T Ts)) (\<lambda>dep'.
          Inr (rgb', alpha_of_T Ts, dep'))) = Inr (rgb, alpha, dep)"
    by (auto dest!: bind_eq_Inr)
  then obtain Ts where 4: "stack (map final_T outs) = Inr Ts"
    and "bind (normalize_depth d (alpha_of_T Ts)) (\<lambda>dep'.
          Inr (rgb', alpha_of_T Ts, dep')) = Inr (rgb, alpha, dep)"
    by (auto dest!: bind_eq_Inr)
  then obtain dep' where 5: "normalize_depth d (alpha_of_T Ts) = Inr dep'"
    and 6: "rgb' = rgb" "alpha_of_T Ts = alpha" "dep' = dep"
    by (auto dest!: bind_eq_Inr)
  from stack_Inr(1) [OF 3] stack_Inr(1) [OF 4] have 7: "d = map depth outs" "Ts = map final_T outs"
    by simp_all
  show ?thesis
    using 1 2 3 4 5 6 7 by (intro that [of outs]) (simp_all add: normalize_depth_def)
qed

lemma render_rows:
  assumes ret: "AutoEncoder_render rgs width height K Rt preds = Inr (rgb, alpha, dep)"
    and b: "b < length K"
  obtains out c where
    "render_call rgs width height K Rt preds b = Inr out"
    "rgb ! b = render out"
    "alpha ! b = map (rsub 1) (final_T out)"
    "c = map (fclamp 0.05 1) (alpha ! b)"
    "length rgb = length K" "length alpha = length K" "length dep = length K"
    "length (depth out) = length c \<or> length c = 1 \<or> length (depth out) = 1"
    "length (depth out) = length c \<Longrightarrow> dep ! b = map2 fdiv (depth out) c"
    "length c = 1 \<Longrightarrow> dep ! b = map (\<lambda>a. fdiv a (c ! 0)) (depth out)"
    "length (depth out) = 1 \<Longrightarrow> dep ! b = map (\<lambda>d. fdiv (depth out ! 0) d) c"
proof -
  from ret obtain outs where
    o1: "render_loop (render_call rgs width height K Rt preds) [0..<length K] = Inr outs"
    and o2: "stack (map render outs) = Inr rgb"
    and o3: "stack (map depth outs) = Inr (map depth outs)"
    and o4: "stack (map final_T outs) = Inr (map final_T outs)"
    and o5: "alpha = alpha_of_T (map final_T outs)"
    and o6: "tdiv (map depth outs) (depth_divisor alpha) = Inr dep"
    by (rule render_Inr)
  from render_loop_Inr [OF o1] b
  have lo: "length outs = length K"
    and call: "render_call rgs width height K Rt preds b = Inr (outs ! b)"
    by simp_all
  from lo b have ne: "outs \<noteq> []" and bo: "b < length outs"
    by auto
  let ?out = "outs ! b"
  let ?c = "map (fclamp 0.05 1) (alpha ! b)"
  have rgb: "rgb = map render outs"
    using stack_Inr(1) [OF o2] .
  have ab: "alpha ! b = map (rsub 1) (final_T ?out)"
    using o5 bo by (simp add: alpha_of_T_def)
  have dd: "depth_divisor alpha = map (\<lambda>out. map (fclamp 0.05 1) (map (rsub 1) (final_T out))) outs"
    using o5 by (simp add: depth_divisor_def alpha_of_T_def)
  have xs: "\<forall>i < length (map depth outs). length (map depth outs ! i) = length (hd (map depth outs))"
    using stack_Inr(3) [OF o3] .
  have "\<forall>i < length (map final_T outs). length (map final_T outs ! i) = length (hd (map final_T outs))"
    using stack_Inr(3) [OF o4] .
  then have ys: "\<forall>i < length (depth_divisor alpha).
      length (depth_divisor alpha ! i) = length (hd (depth_divisor alpha))"
    using ne unfolding dd by (simp add: hd_map)
  have len: "length (map depth outs) = length (depth_divisor alpha)"
    unfolding dd by simp
  have b': "b < length (map depth outs)"
    using bo by simp
  have row: "map depth outs ! b = depth ?out" "depth_divisor alpha ! b = ?c"
    using bo ab unfolding dd by simp_all
  note t = tdiv_row [OF o6 len b' xs ys, unfolded row]
  show ?thesis
  proof (rule that [of ?out ?c])
    show "render_call rgs width height K Rt preds b = Inr ?out" by (rule call)
    show "rgb ! b = render ?out" using rgb bo by simp
    show "alpha ! b = map (rsub 1) (final_T ?out)" by (rule ab)
    show "?c = ?c" ..
    show "length rgb = length K" using rgb lo by simp
    show "length alpha = length K" using o5 lo by (simp add: alpha_of_T_def)
    show "length dep = length K" using t(1) lo by simp
    show "length (depth ?out) = length ?c \<or> length ?c = 1 \<or> length (depth ?out) = 1" by (rule t(2))
    show "length (depth ?out) = length ?c \<Longrightarrow> dep ! b = map2 fdiv (depth ?out) ?c" by (rule t(3))
    show "length ?c = 1 \<Longrightarrow> dep ! b = map (\<lambda>a. fdiv a (?c ! 0)) (depth ?out)" by (rule t(4))
    show "length (depth ?out) = 1 \<Longrightarrow> dep ! b = map (\<lambda>d. fdiv (depth ?out ! 0) d) ?c" by (rule t(5))
  qed
qed

lemma render_rows_ex:
  assumes "AutoEncoder_render rgs width height K Rt preds = Inr (rgb, alpha, dep)"
    and "b < length K"
  shows "\<exists>out c.
      render_call rgs width height K Rt preds b = Inr out
    \<and> rgb ! b = render out
    \<and> alpha ! b = map (rsub 1) (final_T out)
    \<and> c = map (fclamp 0.05 1) (alpha ! b)
    \<and> length rgb = length K \<and> length alpha = length K \<and> length dep = length K
    \<and> (length (depth out) = length c \<or> length c = 1 \<or> length (depth out) = 1)
    \<and> (length (depth out) = length c \<longrightarrow> dep ! b = map2 fdiv (depth out) c)
    \<and> (length c = 1 \<longrightarrow> dep ! b = map (\<lambda>a. fdiv a (c ! 0)) (depth out))
    \<and> (length (depth out) = 1 \<longrightarrow> dep ! b = map (\<lambda>d. fdiv (depth out ! 0) d) c)"
  by (rule render_rows [OF assms]) blast

lemma render_returns:
  assumes batch: "0 < length K"
    and calls: "\<And>b. b < length K \<Longrightarrow> render_call rgs width height K Rt preds b = Inr (out b)"
    and shapes: "\<And>b. b < length K \<Longrightarrow>
          length (render (out b)) = length (render (out 0))
        \<and> length (depth (out b)) = length (depth (out 0))
        \<and> length (final_T (out b)) = length (final_T (out 0))"
    and compat: "length (depth (out 0)) = length (final_T (out 0))
        \<or> length (final_T (out 0)) = 1 \<or> length (depth (out 0)) = 1"
  shows "\<exists>rgb alpha dep. AutoEncoder_render rgs width height K Rt preds = Inr (rgb, alpha, dep)"
proof -
  let ?B = "length K"
  let ?rgb = "map (\<lambda>b. render (out b)) [0..<?B]"
  let ?dep = "map (\<lambda>b. depth (out b)) [0..<?B]"
  let ?Ts = "map (\<lambda>b. final_T (out b)) [0..<?B]"
  have loop: "render_loop (render_call rgs width height K Rt preds) [0..<?B] = Inr (map out [0..<?B])"
    by (rule render_loop_ok [where f = out]) (simp add: calls)
  have s1: "stack (map render (map out [0..<?B])) = Inr ?rgb"
  proof -
    have "stack (map (\<lambda>b. render (out b)) [0..<?B]) = Inr (map (\<lambda>b. render (out b)) [0..<?B])"
      by (rule stack_map_upt [OF batch]) (rule shapes [THEN conjunct1])
    then show ?thesis by (simp only: list.map_comp comp_def)
  qed
  have s2: "stack (map depth (map out [0..<?B])) = Inr ?dep"
  proof -
    have "stack (map (\<lambda>b. depth (out b)) [0..<?B]) = Inr (map (\<lambda>b. depth (out b)) [0..<?B])"
      by (rule stack_map_upt [OF batch]) (rule shapes [THEN conjunct2, THEN conjunct1])
    then show ?thesis by (simp only: list.map_comp comp_def)
  qed
  have s3: "stack (map final_T (map out [0..<?B])) = Inr ?Ts"
  proof -
    have "stack (map (\<lambda>b. final_T (out b)) [0..<?B]) = Inr (map (\<lambda>b. final_T (out b)) [0..<?B])"
      by (rule stack_map_upt [OF batch]) (rule shapes [THEN conjunct2, THEN conjunct2])
    then show ?thesis by (simp only: list.map_comp comp_def)
  qed
  have upt: "[0..<?B] = 0 # [1..<?B]"
    using batch by (simp add: upt_conv_Cons)
  have h1: "length (hd ?dep) = length (depth (out 0))"
    by (subst upt) simp
  have h2: "length (hd (depth_divisor (alpha_of_T ?Ts))) = length (final_T (out 0))"
    by (subst upt) (simp add: depth_divisor_def alpha_of_T_def)
  from compat have "\<exists>r. tdiv ?dep (depth_divisor (alpha_of_T ?Ts)) = Inr r"
    by (intro tdiv_returns) (simp only: h1 h2)
  then obtain r where r: "normalize_depth ?dep (alpha_of_T ?Ts) = Inr r"
    unfolding normalize_depth_def ..
  have "AutoEncoder_render rgs width height K Rt preds = Inr (?rgb, alpha_of_T ?Ts, r)"
    unfolding AutoEncoder_render_def Let_def loop bind_Inr s1 s2 s3 r ..
  then show ?thesis by blast
qed

text \<open>
  When the call of the rasteriser is made and with which arguments.
\<close>

lemma render_call_in_range:
  assumes "b < length K" and "2 \<le> length (K ! b)"
    and "3 \<le> length (K ! b ! 0)" and "3 \<le> length (K ! b ! 1)"
    and "b < length Rt" and "b < length (preds_primpos preds)"
    and "b < length (preds_primqvec preds)" and "b < length (preds_primscale preds)"
    and "b < length (preds_opacity preds)" and "b < length (preds_color preds)"
  shows "render_call rgs width height K Rt preds b
     = Inr (rgs width height (K ! b ! 0 ! 0) (K ! b ! 1 ! 1) (K ! b ! 0 ! 2) (K ! b ! 1 ! 2) (Rt ! b)
         (preds_primpos preds ! b) (preds_primqvec preds ! b) (preds_primscale preds ! b)
         (preds_opacity preds ! b) (preds_color preds ! b))"
proof -
  from assms(2-4)
  have "0 < length (K ! b)" "1 < length (K ! b)" "0 < length (K ! b ! 0)"
    "2 < length (K ! b ! 0)" "1 < length (K ! b ! 1)" "2 < length (K ! b ! 1)"
    by arith+
  with assms(1,5-10) show ?thesis
    unfolding render_call_def by (simp del: length_greater_0_conv)
qed

text \<open>
  C1. For a batch of at least one element on which every call of the rasteriser is made
  (all tensors have the batch size of \<open>K\<close>), a rasteriser whose images have one shape over
  the batch, and a depth image and a transmittance image of one shape (or one of them a
  single value, which the division repeats), \<^verbatim>\<open>render\<close> returns, per image \<open>b\<close>: \<open>rgb\<close>
  equal to the rasteriser's \<^verbatim>\<open>render\<close> output, \<open>alpha\<close> equal to one minus its \<^verbatim>\<open>final_T\<close>, and
  \<open>depth\<close> equal, pixel by pixel, to its raw depth divided by \<open>alpha\<close> clamped to
  \<open>[0.05, 1.0]\<close>; the three results are stacked over the batch in order.
\<close>

theorem render_per_image:
  assumes batch: "0 < length K"
    and calls: "\<And>b. b < length K \<Longrightarrow> render_call rgs width height K Rt preds b = Inr (out b)"
    and shapes: "\<And>b. b < length K \<Longrightarrow>
          length (render (out b)) = length (render (out 0))
        \<and> length (depth (out b)) = length (depth (out 0))
        \<and> length (final_T (out b)) = length (final_T (out 0))"
    and compat: "length (depth (out 0)) = length (final_T (out 0))
        \<or> length (final_T (out 0)) = 1 \<or> length (depth (out 0)) = 1"
  shows "\<exists>rgb alpha dep.
      AutoEncoder_render rgs width height K Rt preds = Inr (rgb, alpha, dep)
      \<and> length rgb = length K \<and> length alpha = length K \<and> length dep = length K
      \<and> (\<forall>b < length K.
            rgb ! b = render (out b)
          \<and> alpha ! b = map (rsub 1) (final_T (out b))
          \<and> (length (depth (out b)) = length (final_T (out b)) \<longrightarrow>
                length (dep ! b) = length (depth (out b))
              \<and> (\<forall>p < length (dep ! b).
                    dep ! b ! p
                      = fdiv (depth (out b) ! p) (fclamp 0.05 1 (rsub 1 (final_T (out b) ! p)))))
          \<and> (length (final_T (out b)) = 1 \<longrightarrow>
                dep ! b = map (\<lambda>d. fdiv d (fclamp 0.05 1 (rsub 1 (final_T (out b) ! 0))))
                            (depth (out b)))
          \<and> (length (depth (out b)) = 1 \<longrightarrow>
                dep ! b = map (\<lambda>T. fdiv (depth (out b) ! 0) (fclamp 0.05 1 (rsub 1 T)))
                            (final_T (out b))))"
proof -
  from render_returns [of K rgs width height Rt preds out, OF batch calls shapes compat]
  obtain rgb alpha dep where
    ret: "AutoEncoder_render rgs width height K Rt preds = Inr (rgb, alpha, dep)"
    by blast
  have rows: "rgb ! b = render (out b)
          \<and> alpha ! b = map (rsub 1) (final_T (out b))
          \<and> (length (depth (out b)) = length (final_T (out b)) \<longrightarrow>
                length (dep ! b) = length (depth (out b))
              \<and> (\<forall>p < length (dep ! b).
                    dep ! b ! p
                      = fdiv (depth (out b) ! p) (fclamp 0.05 1 (rsub 1 (final_T (out b) ! p)))))
          \<and> (length (final_T (out b)) = 1 \<longrightarrow>
                dep ! b = map (\<lambda>d. fdiv d (fclamp 0.05 1 (rsub 1 (final_T (out b) ! 0))))
                            (depth (out b)))
          \<and> (length (depth (out b)) = 1 \<longrightarrow>
                dep ! b = map (\<lambda>T. fdiv (depth (out b) ! 0) (fclamp 0.05 1 (rsub 1 T)))
                            (final_T (out b)))" if b: "b < length K" for b
  proof -
    from render_rows_ex [OF ret b] obtain out' c where
      r1: "render_call rgs width height K Rt preds b = Inr out'"
      and r2: "rgb ! b = render out'"
      and r3: "alpha ! b = map (rsub 1) (final_T out')"
      and r4: "c = map (fclamp 0.05 1) (alpha ! b)"
      and r5: "length (depth out') = length c \<longrightarrow> dep ! b = map2 fdiv (depth out') c"
      and r6: "length c = 1 \<longrightarrow> dep ! b = map (\<lambda>a. fdiv a (c ! 0)) (depth out')"
      and r7: "length (depth out') = 1 \<longrightarrow> dep ! b = map (\<lambda>d. fdiv (depth out' ! 0) d) c"
      by blast
    from r1 calls [OF b] have o: "out' = out b"
      by simp
    have c: "c = map (\<lambda>T. fclamp 0.05 1 (rsub 1 T)) (final_T (out b))"
      unfolding r4 r3 o by simp
    have lc: "length c = length (final_T (out b))"
      unfolding c by simp
    have e1: "length (dep ! b) = length (depth (out b))
              \<and> (\<forall>p < length (dep ! b).
                    dep ! b ! p
                      = fdiv (depth (out b) ! p) (fclamp 0.05 1 (rsub 1 (final_T (out b) ! p))))"
      if eq: "length (depth (out b)) = length (final_T (out b))"
    proof -
      from eq have "dep ! b = map2 fdiv (depth (out b)) c"
        using r5 unfolding o lc by simp
      with eq show ?thesis
        unfolding c by simp
    qed
    have e2: "dep ! b = map (\<lambda>d. fdiv d (fclamp 0.05 1 (rsub 1 (final_T (out b) ! 0)))) (depth (out b))"
      if one: "length (final_T (out b)) = 1"
    proof -
      from one have "dep ! b = map (\<lambda>a. fdiv a (c ! 0)) (depth (out b))"
        using r6 unfolding o lc by simp
      moreover from one have "c ! 0 = fclamp 0.05 1 (rsub 1 (final_T (out b) ! 0))"
        unfolding c by simp
      ultimately show ?thesis by simp
    qed
    have e3: "dep ! b = map (\<lambda>T. fdiv (depth (out b) ! 0) (fclamp 0.05 1 (rsub 1 T))) (final_T (out b))"
      if one: "length (depth (out b)) = 1"
    proof -
      from one have "dep ! b = map (\<lambda>d. fdiv (depth (out b) ! 0) d) c"
        using r7 unfolding o by simp
      then show ?thesis
        unfolding c by simp
    qed
    from r2 r3 e1 e2 e3 show ?thesis
      unfolding o by blast
  qed
  have lens: "length rgb = length K \<and> length alpha = length K \<and> length dep = length K"
    using render_rows_ex [OF ret batch] by blast
  from ret lens rows show ?thesis
    by blast
qed

theorem render_per_image_witness:
  "\<exists>rgb alpha dep.
     AutoEncoder_render
       (\<lambda>w h fx fy cx cy Rt pos q s opa c.
          \<lparr>render = [Val fx, Val fy], final_T = [Val (1 / 2), Val 1], depth = [Val 2, Val 3]\<rparr>)
       2 1 [[[1, 0, 2], [0, 3, 4], [0, 0, 1]]] [()]
       \<lparr>preds_primpos = [()], preds_primqvec = [()], preds_primscale = [()], preds_opacity = [()], preds_color = [()]\<rparr>
       = Inr (rgb, alpha, dep)
     \<and> rgb ! 0 = [Val 1, Val 3] \<and> alpha ! 0 = [Val (1 / 2), Val 0]
     \<and> dep ! 0 ! 0 = Val 4 \<and> dep ! 0 ! 1 = Val 60"
proof -
  let ?rgs = "\<lambda>(w::nat) (h::nat) (fx::real) (fy::real) (cx::real) (cy::real) (Rt::unit)
      (pos::unit) (q::unit) (s::unit) (opa::unit) (c::unit).
      \<lparr>render = [Val fx, Val fy], final_T = [Val (1 / 2), Val 1], depth = [Val 2, Val 3]\<rparr>"
  let ?K = "[[[1, 0, 2], [0, 3, 4], [0, 0, 1]]] :: mat list"
  let ?preds = "\<lparr>preds_primpos = [()], preds_primqvec = [()], preds_primscale = [()], preds_opacity = [()], preds_color = [()]\<rparr>"
  let ?out = "\<lambda>b::nat. \<lparr>render = [Val 1, Val 3], final_T = [Val (1 / 2), Val 1], depth = [Val 2, Val 3]\<rparr>"
  have len: "0 < length ?K"
    by simp
  have "\<exists>rgb alpha dep.
      AutoEncoder_render ?rgs 2 1 ?K [()] ?preds = Inr (rgb, alpha, dep)
      \<and> length rgb = length ?K \<and> length alpha = length ?K \<and> length dep = length ?K
      \<and> (\<forall>b < length ?K.
            rgb ! b = render (?out b)
          \<and> alpha ! b = map (rsub 1) (final_T (?out b))
          \<and> (length (depth (?out b)) = length (final_T (?out b)) \<longrightarrow>
                length (dep ! b) = length (depth (?out b))
              \<and> (\<forall>p < length (dep ! b).
                    dep ! b ! p
                      = fdiv (depth (?out b) ! p) (fclamp 0.05 1 (rsub 1 (final_T (?out b) ! p)))))
          \<and> (length (final_T (?out b)) = 1 \<longrightarrow>
                dep ! b = map (\<lambda>d. fdiv d (fclamp 0.05 1 (rsub 1 (final_T (?out b) ! 0))))
                            (depth (?out b)))
          \<and> (length (depth (?out b)) = 1 \<longrightarrow>
                dep ! b = map (\<lambda>T. fdiv (depth (?out b) ! 0) (fclamp 0.05 1 (rsub 1 T)))
                            (final_T (?out b))))"
    by (rule render_per_image [where out = ?out, OF len]) (simp_all add: render_call_def)
  then obtain rgb alpha dep where
    r: "AutoEncoder_render ?rgs 2 1 ?K [()] ?preds = Inr (rgb, alpha, dep)"
    and a: "\<forall>b < length ?K.
            rgb ! b = render (?out b)
          \<and> alpha ! b = map (rsub 1) (final_T (?out b))
          \<and> (length (depth (?out b)) = length (final_T (?out b)) \<longrightarrow>
                length (dep ! b) = length (depth (?out b))
              \<and> (\<forall>p < length (dep ! b).
                    dep ! b ! p
                      = fdiv (depth (?out b) ! p) (fclamp 0.05 1 (rsub 1 (final_T (?out b) ! p)))))"
    by blast
  from a have b0: "rgb ! 0 = [Val 1, Val 3]" "alpha ! 0 = [Val (1 / 2), Val 0]" "length (dep ! 0) = 2"
    and px: "\<forall>p < length (dep ! 0). dep ! 0 ! p
        = fdiv (depth (?out 0) ! p) (fclamp 0.05 1 (rsub 1 (final_T (?out 0) ! p)))"
    by (simp_all add: rsub_def)
  from px b0(3) have "dep ! 0 ! 0 = Val 4" "dep ! 0 ! 1 = Val 60"
    by (simp_all add: rsub_def fclamp_def clamp_def)
  with r b0 show ?thesis
    by blast
qed

text \<open>
  Where \<^verbatim>\<open>render\<close> does not return: on the empty batch \<^verbatim>\<open>th.stack\<close> raises, and on a depth
  image of two pixels with a transmittance image of three the division raises.
\<close>

theorem render_raises_counterexample:
  "AutoEncoder_render
       (\<lambda>w h fx fy cx cy Rt pos q s opa c.
          \<lparr>render = [Val fx, Val fy], final_T = [Val (1 / 2), Val 1], depth = [Val 2, Val 3]\<rparr>)
       2 1 [] ([] :: unit list)
       \<lparr>preds_primpos = ([] :: unit list), preds_primqvec = [], preds_primscale = [],
        preds_opacity = [], preds_color = []\<rparr>
     = Inl RuntimeError
   \<and> AutoEncoder_render
       (\<lambda>w h fx fy cx cy Rt pos q s opa c.
          \<lparr>render = [Val fx, Val fy], final_T = [Val (1 / 2), Val 1, Val 0], depth = [Val 2, Val 3]\<rparr>)
       2 1 [[[1, 0, 2], [0, 3, 4], [0, 0, 1]]] [()]
       \<lparr>preds_primpos = [()], preds_primqvec = [()], preds_primscale = [()], preds_opacity = [()], preds_color = [()]\<rparr>
     = Inl RuntimeError"
  by (simp add: AutoEncoder_render_def stack_def render_call_def normalize_depth_def tdiv_def
      depth_divisor_def alpha_of_T_def)

text \<open>
  C8. Whenever \<^verbatim>\<open>render\<close> returns, the depth of every image is the rasteriser's raw depth
  divided by the divisor \<open>c\<close>, which is \<open>alpha\<close> clamped to \<open>[0.05, 1.0]\<close>. No divisor is zero.
  A divisor is NaN where the rasteriser's transmittance is NaN, and a number of
  \<open>[0.05, 1]\<close> at every other pixel, whatever the transmittance there.
\<close>

theorem depth_divisor_bounded_below:
  assumes ret: "AutoEncoder_render rgs width height K Rt preds = Inr (rgb, alpha, dep)"
    and b: "b < length K"
  shows "\<exists>out c.
      render_call rgs width height K Rt preds b = Inr out
    \<and> alpha ! b = map (rsub 1) (final_T out)
    \<and> c = map (fclamp 0.05 1) (alpha ! b)
    \<and> depth_divisor alpha ! b = c
    \<and> length c = length (final_T out)
    \<and> (length (depth out) = length c \<and> dep ! b = map2 fdiv (depth out) c
       \<or> length c = 1 \<and> dep ! b = map (\<lambda>d. fdiv d (c ! 0)) (depth out)
       \<or> length (depth out) = 1 \<and> dep ! b = map (\<lambda>d. fdiv (depth out ! 0) d) c)
    \<and> (\<forall>p < length c.
          c ! p \<noteq> Val 0
        \<and> (final_T out ! p = NaN \<and> c ! p = NaN
           \<or> (\<exists>v. c ! p = Val v \<and> 0.05 \<le> v \<and> v \<le> 1)))"
proof -
  from render_rows_ex [OF ret b] obtain out c where
    r1: "render_call rgs width height K Rt preds b = Inr out"
    and r3: "alpha ! b = map (rsub 1) (final_T out)"
    and r4: "c = map (fclamp 0.05 1) (alpha ! b)"
    and la: "length alpha = length K"
    and r0: "length (depth out) = length c \<or> length c = 1 \<or> length (depth out) = 1"
    and r5: "length (depth out) = length c \<longrightarrow> dep ! b = map2 fdiv (depth out) c"
    and r6: "length c = 1 \<longrightarrow> dep ! b = map (\<lambda>a. fdiv a (c ! 0)) (depth out)"
    and r7: "length (depth out) = 1 \<longrightarrow> dep ! b = map (\<lambda>d. fdiv (depth out ! 0) d) c"
    by blast
  have dd: "depth_divisor alpha ! b = c"
    using b la unfolding r4 by (simp add: depth_divisor_def)
  have lc: "length c = length (final_T out)"
    unfolding r4 r3 by simp
  have div: "length (depth out) = length c \<and> dep ! b = map2 fdiv (depth out) c
       \<or> length c = 1 \<and> dep ! b = map (\<lambda>d. fdiv d (c ! 0)) (depth out)
       \<or> length (depth out) = 1 \<and> dep ! b = map (\<lambda>d. fdiv (depth out ! 0) d) c"
    using r0 r5 r6 r7 by blast
  have px: "c ! p \<noteq> Val 0
        \<and> (final_T out ! p = NaN \<and> c ! p = NaN
           \<or> (\<exists>v. c ! p = Val v \<and> 0.05 \<le> v \<and> v \<le> 1))" if p: "p < length c" for p
  proof -
    from p lc have cp: "c ! p = fclamp 0.05 1 (rsub 1 (final_T out ! p))"
      unfolding r4 r3 by simp
    from fclamp_range [of "rsub 1 (final_T out ! p)"] fclamp_not_zero [of "rsub 1 (final_T out ! p)"]
    show ?thesis
      unfolding cp rsub_NaN by blast
  qed
  from r1 r3 r4 dd lc div px show ?thesis
    by blast
qed

theorem depth_divisor_bounded_below_witness:
  "\<exists>rgb alpha dep.
     AutoEncoder_render
       (\<lambda>w h fx fy cx cy Rt pos q s opa c.
          \<lparr>render = [Val fx, Val fy, Val cx], final_T = [Val 1, Val (1 / 2), NegInf],
           depth = [Val 2, Val 3, Val 4]\<rparr>)
       3 1 [[[1, 0, 2], [0, 3, 4], [0, 0, 1]]] [()]
       \<lparr>preds_primpos = [()], preds_primqvec = [()], preds_primscale = [()], preds_opacity = [()], preds_color = [()]\<rparr>
       = Inr (rgb, alpha, dep)
     \<and> depth_divisor alpha ! 0 = [Val 0.05, Val (1 / 2), Val 1]
     \<and> dep ! 0 = [Val 40, Val 6, Val 4]"
proof -
  let ?rgs = "\<lambda>(w::nat) (h::nat) (fx::real) (fy::real) (cx::real) (cy::real) (Rt::unit)
      (pos::unit) (q::unit) (s::unit) (opa::unit) (c::unit).
      \<lparr>render = [Val fx, Val fy, Val cx], final_T = [Val 1, Val (1 / 2), NegInf],
       depth = [Val 2, Val 3, Val 4]\<rparr>"
  let ?K = "[[[1, 0, 2], [0, 3, 4], [0, 0, 1]]] :: mat list"
  let ?preds = "\<lparr>preds_primpos = [()], preds_primqvec = [()], preds_primscale = [()], preds_opacity = [()], preds_color = [()]\<rparr>"
  let ?out = "\<lparr>render = [Val 1, Val 3, Val 2], final_T = [Val 1, Val (1 / 2), NegInf],
       depth = [Val 2, Val 3, Val 4]\<rparr>"
  have call: "render_call ?rgs 3 1 ?K [()] ?preds 0 = Inr ?out"
    by (simp add: render_call_def)
  have "\<exists>rgb alpha dep. AutoEncoder_render ?rgs 3 1 ?K [()] ?preds = Inr (rgb, alpha, dep)"
    by (simp add: AutoEncoder_render_def stack_def render_call_def normalize_depth_def tdiv_def
      depth_divisor_def alpha_of_T_def)
  then obtain rgb alpha dep where
    ret: "AutoEncoder_render ?rgs 3 1 ?K [()] ?preds = Inr (rgb, alpha, dep)"
    by blast
  have b: "0 < length ?K"
    by simp
  from depth_divisor_bounded_below [OF ret b] obtain out c where
    o: "render_call ?rgs 3 1 ?K [()] ?preds 0 = Inr out"
    and a: "alpha ! 0 = map (rsub 1) (final_T out)"
    and c: "c = map (fclamp 0.05 1) (alpha ! 0)"
    and dd: "depth_divisor alpha ! 0 = c"
    and d: "length (depth out) = length c \<and> dep ! 0 = map2 fdiv (depth out) c
       \<or> length c = 1 \<and> dep ! 0 = map (\<lambda>d. fdiv d (c ! 0)) (depth out)
       \<or> length (depth out) = 1 \<and> dep ! 0 = map (\<lambda>d. fdiv (depth out ! 0) d) c"
    by blast
  from o call have out: "out = ?out"
    by simp
  have cv: "c = [Val 0.05, Val (1 / 2), Val 1]"
    unfolding c a out by (simp add: rsub_def fclamp_def clamp_def)
  from d have "dep ! 0 = [Val 40, Val 6, Val 4]"
    unfolding cv out by simp
  with ret dd cv show ?thesis
    by blast
qed

text \<open>
  A NaN transmittance: \<^verbatim>\<open>clamp\<close> keeps the NaN, so the divisor of that pixel is NaN, not a
  number bounded below by \<open>0.05\<close>.
\<close>

theorem depth_divisor_nan_counterexample:
  "AutoEncoder_render
       (\<lambda>w h fx fy cx cy Rt pos q s opa c.
          \<lparr>render = [Val fx, Val fy], final_T = [NaN, Val 1], depth = [Val 2, Val 3]\<rparr>)
       2 1 [[[1, 0, 2], [0, 3, 4], [0, 0, 1]]] [()]
       \<lparr>preds_primpos = [()], preds_primqvec = [()], preds_primscale = [()], preds_opacity = [()], preds_color = [()]\<rparr>
     = Inr ([[Val 1, Val 3]], [[NaN, Val 0]], [[NaN, Val 60]])
   \<and> depth_divisor [[NaN, Val 0]] = [[NaN, Val 0.05]]
   \<and> (\<nexists>v. depth_divisor [[NaN, Val 0]] ! 0 ! 0 = Val v \<and> 0.05 \<le> v)"
  by (simp add: AutoEncoder_render_def stack_def render_call_def normalize_depth_def tdiv_def
      depth_divisor_def alpha_of_T_def rsub_def fclamp_def clamp_def)

section \<open>Properties of Encoder.forward\<close>

lemma randn_like_nth:
  "b < length t \<Longrightarrow> i < length (t ! b) \<Longrightarrow> randn_like rng t ! b ! i = rng b i"
  by (simp add: randn_like_def)

lemma randn_like_shape:
  "length (randn_like rng t) = length t"
  "b < length t \<Longrightarrow> length (randn_like rng t ! b) = length (t ! b)"
  by (simp_all add: randn_like_def)

text \<open>
  C7. In eval mode the returned latent code \<open>embs\<close> is \<open>embs_mu\<close> itself, and the whole
  result does not depend on the random generator: two runs on the same geometry and colour
  give the same \<open>embs\<close>, \<open>embs_mu\<close> and \<open>embs_logvar\<close>. In training mode \<open>embs\<close> is
  \<open>embs_mu\<close> plus the generator's noise scaled by \<open>exp embs_logvar\<close> and \<open>noise_std\<close>,
  position by position (the two linear heads give tensors of one shape). \<open>embs_mu\<close> and
  \<open>embs_logvar\<close> never depend on the generator.
\<close>

theorem encoder_noise_only_in_training:
  fixes e :: encoder and rng rng' :: "nat \<Rightarrow> nat \<Rightarrow> real"
    and geom :: "real list list list" and col :: "real list list"
  defines "r \<equiv> Encoder_forward e rng geom col"
  shows "embs_mu r = embs_mu (Encoder_forward e rng' geom col)
       \<and> embs_logvar r = embs_logvar (Encoder_forward e rng' geom col)
       \<and> (\<not> training e \<longrightarrow>
            embs r = embs_mu r \<and> r = Encoder_forward e rng' geom col)
       \<and> (training e \<longrightarrow> length (embs_logvar r) = length (embs_mu r) \<longrightarrow>
            length (embs r) = length (embs_mu r)
          \<and> (\<forall>b < length (embs_mu r). length (embs_logvar r ! b) = length (embs_mu r ! b) \<longrightarrow>
                length (embs r ! b) = length (embs_mu r ! b)
              \<and> (\<forall>i < length (embs_mu r ! b).
                    embs r ! b ! i
                      = embs_mu r ! b ! i + exp (embs_logvar r ! b ! i) * rng b i * noise_std e)))"
proof (intro conjI impI allI)
  show "embs_mu r = embs_mu (Encoder_forward e rng' geom col)"
    by (simp add: r_def Encoder_forward_def Let_def)
  show "embs_logvar r = embs_logvar (Encoder_forward e rng' geom col)"
    by (simp add: r_def Encoder_forward_def Let_def)
next
  assume "\<not> training e"
  then show "embs r = embs_mu r" "r = Encoder_forward e rng' geom col"
    by (simp_all add: r_def Encoder_forward_def Let_def)
next
  assume t: "training e" and l: "length (embs_logvar r) = length (embs_mu r)"
  let ?mu = "embs_mu r" and ?lv = "embs_logvar r"
  have em: "embs r = map2 (map2 (+)) ?mu
       (map2 (map2 (\<lambda>l n. exp l * n * noise_std e)) ?lv (randn_like rng ?mu))"
    using t by (simp add: r_def Encoder_forward_def Let_def)
  show "length (embs r) = length (embs_mu r)"
    using l by (simp add: em randn_like_shape)
  fix b assume b: "b < length (embs_mu r)"
    and lb: "length (embs_logvar r ! b) = length (embs_mu r ! b)"
  have row: "embs r ! b = map2 (+) (?mu ! b)
       (map2 (\<lambda>l n. exp l * n * noise_std e) (?lv ! b) (randn_like rng ?mu ! b))"
    using b l by (simp add: em randn_like_shape)
  show "length (embs r ! b) = length (embs_mu r ! b)"
    using b lb by (simp add: row randn_like_shape)
  fix i assume "i < length (embs_mu r ! b)"
  then show "embs r ! b ! i
      = embs_mu r ! b ! i + exp (embs_logvar r ! b ! i) * rng b i * noise_std e"
    using b lb by (simp add: row randn_like_shape randn_like_nth)
qed

theorem encoder_noise_only_in_training_witness:
  "\<not> training \<lparr>noise_std = 1, mean_scale = 1 / 10, logvar_scale = 1 / 100, training = False,
        geommod = id, texmod = id, jointmod = id, mean = id, logvar = map (map (\<lambda>x. 0))\<rparr>
   \<and> embs (Encoder_forward
        \<lparr>noise_std = 1, mean_scale = 1 / 10, logvar_scale = 1 / 100, training = False,
          geommod = id, texmod = id, jointmod = id, mean = id, logvar = map (map (\<lambda>x. 0))\<rparr>
        (\<lambda>b i. 1) [[[1, 2], [3]]] [[255]]) = [[1 / 10, 2 / 10, 3 / 10, 1 / 20]]
   \<and> Encoder_forward
        \<lparr>noise_std = 1, mean_scale = 1 / 10, logvar_scale = 1 / 100, training = False,
          geommod = id, texmod = id, jointmod = id, mean = id, logvar = map (map (\<lambda>x. 0))\<rparr>
        (\<lambda>b i. 1) [[[1, 2], [3]]] [[255]]
     = Encoder_forward
        \<lparr>noise_std = 1, mean_scale = 1 / 10, logvar_scale = 1 / 100, training = False,
          geommod = id, texmod = id, jointmod = id, mean = id, logvar = map (map (\<lambda>x. 0))\<rparr>
        (\<lambda>b i. 2) [[[1, 2], [3]]] [[255]]
   \<and> training \<lparr>noise_std = 1, mean_scale = 1 / 10, logvar_scale = 1 / 100, training = True,
        geommod = id, texmod = id, jointmod = id, mean = id, logvar = map (map (\<lambda>x. 0))\<rparr>
   \<and> embs (Encoder_forward
        \<lparr>noise_std = 1, mean_scale = 1 / 10, logvar_scale = 1 / 100, training = True,
          geommod = id, texmod = id, jointmod = id, mean = id, logvar = map (map (\<lambda>x. 0))\<rparr>
        (\<lambda>b i. 2) [[[1, 2], [3]]] [[255]]) ! 0 ! 3 = 1 / 20 + 2"
proof -
  let ?e = "\<lambda>t. \<lparr>noise_std = 1, mean_scale = 1 / 10, logvar_scale = 1 / 100, training = t,
        geommod = id, texmod = id, jointmod = id, mean = id, logvar = map (map (\<lambda>x::real. 0::real))\<rparr>"
  let ?g = "[[[1, 2], [3]]] :: real list list list"
  let ?c = "[[255]] :: real list list"
  have mu: "embs_mu (Encoder_forward (?e t) rng ?g ?c) = [[1 / 10, 2 / 10, 3 / 10, 1 / 20]]" for t rng
    by (simp add: Encoder_forward_def Let_def)
  have lv: "embs_logvar (Encoder_forward (?e t) rng ?g ?c) = [[0, 0, 0, 0]]" for t rng
    by (simp add: Encoder_forward_def Let_def)
  note ev_th = encoder_noise_only_in_training [of "?e False" "\<lambda>b i. 1" ?g ?c "\<lambda>b i. 2"]
  have nt: "\<not> training (?e False)"
    by simp
  from ev_th nt
  have "embs (Encoder_forward (?e False) (\<lambda>b i. 1) ?g ?c)
      = embs_mu (Encoder_forward (?e False) (\<lambda>b i. 1) ?g ?c)"
    by blast
  then have ev1: "embs (Encoder_forward (?e False) (\<lambda>b i. 1) ?g ?c)
      = [[1 / 10, 2 / 10, 3 / 10, 1 / 20]]"
    by (simp only: mu)
  from ev_th nt
  have ev2: "Encoder_forward (?e False) (\<lambda>b i. 1) ?g ?c = Encoder_forward (?e False) (\<lambda>b i. 2) ?g ?c"
    by blast
  note tr_th = encoder_noise_only_in_training [of "?e True" "\<lambda>b i. 2" ?g ?c "\<lambda>b i. 2"]
  have t: "training (?e True)"
    by simp
  from tr_th have tr: "embs (Encoder_forward (?e True) (\<lambda>b i. 2) ?g ?c) ! 0 ! 3 = 1 / 20 + 2"
    by (simp add: mu lv)
  from nt ev1 ev2 t tr show ?thesis
    by (intro conjI)
qed

section \<open>Properties of the head-relative coordinates\<close>

lemma len3: "length xs = 3 \<Longrightarrow> \<exists>a b c. xs = [a, b, c]"
  by (auto simp: numeral_3_eq_3 length_Suc_conv)

lemma len4: "length xs = 4 \<Longrightarrow> \<exists>a b c d. xs = [a, b, c, d]"
  by (auto simp: numeral_eq_Suc length_Suc_conv)

lemma mat33:
  assumes "has_shape 3 3 M"
  obtains a b c d e f g h i where "M = [[a, b, c], [d, e, f], [g, h, i]]"
proof -
  from assms obtain r1 r2 r3 where M: "M = [r1, r2, r3]"
    using len3 [of M] by (auto simp: has_shape_def)
  with assms have "length r1 = 3" "length r2 = 3" "length r3 = 3"
    by (simp_all add: has_shape_def)
  then obtain a b c d e f g h i where "r1 = [a, b, c]" "r2 = [d, e, f]" "r3 = [g, h, i]"
    using len3 [of r1] len3 [of r2] len3 [of r3] by auto
  with M that show ?thesis
    by simp
qed

lemma mat34:
  assumes "has_shape 3 4 M"
  obtains a b c t1 d e f t2 g h i t3 where "M = [[a, b, c, t1], [d, e, f, t2], [g, h, i, t3]]"
proof -
  from assms obtain r1 r2 r3 where M: "M = [r1, r2, r3]"
    using len3 [of M] by (auto simp: has_shape_def)
  with assms have "length r1 = 4" "length r2 = 4" "length r3 = 4"
    by (simp_all add: has_shape_def)
  then obtain a b c t1 d e f t2 g h i t3
    where "r1 = [a, b, c, t1]" "r2 = [d, e, f, t2]" "r3 = [g, h, i, t3]"
    using len4 [of r1] len4 [of r2] len4 [of r3] by auto
  with M that show ?thesis
    by simp
qed

lemma dot_commute: "dot a b = dot b a"
  unfolding dot_def by (induction a b rule: list_induct2') (simp_all add: mult.commute)

lemma vecmat_transpose: "vecmat v M = matvec (transpose M) v"
  by (simp add: vecmat_def matvec_def dot_commute)

lemmas ops = vecmat_def matvec_def matmul_def dot_def vadd_def vsub_def

lemma matvec_assoc3:
  "matvec [[a, b, c], [d, e, f], [g, h, i]] (matvec [[a', b', c'], [d', e', f'], [g', h', i']] [x, y, z])
     = matvec (matmul [[a, b, c], [d, e, f], [g, h, i]] [[a', b', c'], [d', e', f'], [g', h', i']]) [x, y, z]"
  by (simp add: ops algebra_simps)

lemma matvec_I3: "matvec I3 [x, y, z] = [x, y, z]"
  by (simp add: ops I3_def)

lemma vecmat_rigid3:
  "vecmat (matvec [[a, b, c], [d, e, f], [g, h, i]] [x, y, z])
      (matmul [[a, b, c], [d, e, f], [g, h, i]] [[a', b', c'], [d', e', f'], [g', h', i']])
   = vecmat (matvec (matmul (transpose [[a, b, c], [d, e, f], [g, h, i]]) [[a, b, c], [d, e, f], [g, h, i]])
        [x, y, z]) [[a', b', c'], [d', e', f'], [g', h', i']]"
  by (simp add: ops algebra_simps)


lemma headrel_light_pos_map:
  "headrel_light_pos P ls = map (headrel_campos P) ls"
  by (simp add: headrel_light_pos_def headrel_campos_def)

lemma headframe_point:
  assumes "has_shape 3 4 P" and "length x = 3" and "orthonormal (pose_R P)"
  shows "rigid_point (pose_R P) (pose_t P) (headrel_campos P x) = x"
proof -
  from assms(1) obtain a b c d e f g h i t1 t2 t3
    where P: "P = [[a, b, c, t1], [d, e, f, t2], [g, h, i, t3]]"
    by (rule mat34)
  from assms(2) obtain x1 x2 x3 where x: "x = [x1, x2, x3]"
    using len3 by blast
  let ?R = "[[a, b, c], [d, e, f], [g, h, i]]"
  let ?RT = "[[a, d, g], [b, e, h], [c, f, i]]"
  let ?d = "[x1 - t1, x2 - t2, x3 - t3]"
  have R: "pose_R P = ?R" and t: "pose_t P = [t1, t2, t3]"
    by (simp_all add: P pose_R_def pose_t_def)
  have d: "vsub x (pose_t P) = ?d"
    by (simp add: x t vsub_def)
  have tr: "transpose ?R = ?RT"
    by simp
  from assms(3) have o: "matmul ?R ?RT = I3"
    unfolding orthonormal_def R tr by (rule conjunct2)
  have "matvec ?R (vecmat ?d ?R) = matvec ?R (matvec ?RT ?d)"
    by (simp only: vecmat_transpose tr)
  also have "\<dots> = matvec (matmul ?R ?RT) ?d"
    by (rule matvec_assoc3)
  also have "\<dots> = ?d"
    by (simp only: o matvec_I3)
  finally have m: "matvec ?R (vecmat ?d ?R) = ?d" .
  show ?thesis
    unfolding rigid_point_def headrel_campos_def d R m by (simp add: vadd_def x t)
qed

lemma invariant_point:
  assumes "has_shape 3 4 P" and "length x = 3"
    and "has_shape 3 3 Q" and "orthonormal Q" and "length s = 3"
  shows "headrel_campos (rigid_pose Q s P) (rigid_point Q s x) = headrel_campos P x"
proof -
  from assms(1) obtain a b c d e f g h i t1 t2 t3
    where P: "P = [[a, b, c, t1], [d, e, f, t2], [g, h, i, t3]]"
    by (rule mat34)
  from assms(2) obtain x1 x2 x3 where x: "x = [x1, x2, x3]"
    using len3 by blast
  from assms(3) obtain q1 q2 q3 q4 q5 q6 q7 q8 q9
    where Q: "Q = [[q1, q2, q3], [q4, q5, q6], [q7, q8, q9]]"
    by (rule mat33)
  from assms(5) obtain s1 s2 s3 where s: "s = [s1, s2, s3]"
    using len3 by blast
  let ?R = "[[a, b, c], [d, e, f], [g, h, i]]"
  let ?Q = "[[q1, q2, q3], [q4, q5, q6], [q7, q8, q9]]"
  let ?d = "[x1 - t1, x2 - t2, x3 - t3]"
  have R: "pose_R P = ?R" and t: "pose_t P = [t1, t2, t3]"
    by (simp_all add: P pose_R_def pose_t_def)
  have d: "vsub x (pose_t P) = ?d"
    by (simp add: x t vsub_def)
  have R': "pose_R (rigid_pose Q s P) = matmul ?Q ?R"
    unfolding rigid_pose_def rigid_point_def R t Q s by (simp add: ops pose_R_def)
  have t': "pose_t (rigid_pose Q s P) = vadd (matvec ?Q [t1, t2, t3]) [s1, s2, s3]"
    unfolding rigid_pose_def rigid_point_def R t Q s by (simp add: ops pose_t_def)
  have d': "vsub (rigid_point Q s x) (pose_t (rigid_pose Q s P)) = matvec ?Q ?d"
  proof -
    have "vsub (rigid_point Q s x) (vadd (matvec ?Q [t1, t2, t3]) [s1, s2, s3]) = matvec ?Q ?d"
      unfolding rigid_point_def Q s x by (simp add: ops algebra_simps)
    then show ?thesis
      by (simp only: t')
  qed
  from assms(4) have o: "matmul (transpose ?Q) ?Q = I3"
    unfolding orthonormal_def Q by (rule conjunct1)
  have "headrel_campos (rigid_pose Q s P) (rigid_point Q s x) = vecmat (matvec ?Q ?d) (matmul ?Q ?R)"
    unfolding headrel_campos_def d' R' ..
  also have "\<dots> = vecmat (matvec (matmul (transpose ?Q) ?Q) ?d) ?R"
    by (rule vecmat_rigid3)
  also have "\<dots> = vecmat ?d ?R"
    by (simp only: o matvec_I3)
  also have "\<dots> = headrel_campos P x"
    unfolding headrel_campos_def d R ..
  finally show ?thesis .
qed

text \<open>
  C2. For a head pose \<open>[R | t]\<close> with an orthonormal rotation block, the head-relative
  camera position computed in \<^verbatim>\<open>forward\<close> is \<open>R\<^sup>T (campos - t)\<close>, the camera position
  expressed in the head frame: mapping it back with \<open>x \<mapsto> R x + t\<close> gives \<open>campos\<close>. The same
  holds for every light position. Consequently the head-relative camera and light positions
  do not change when one rigid motion \<open>x \<mapsto> Q x + s\<close> (\<open>Q\<close> orthonormal) is applied jointly
  to the head pose, the camera position and the light positions.
\<close>

theorem headrel_positions:
  assumes pose: "has_shape 3 4 head_pose" "orthonormal (pose_R head_pose)"
    and cam: "length campos = 3"
    and lights: "list_all (\<lambda>l. length l = 3) light_pos"
    and motion: "has_shape 3 3 Q" "orthonormal Q" "length s = 3"
  shows "headrel_campos head_pose campos
           = matvec (transpose (pose_R head_pose)) (vsub campos (pose_t head_pose))
       \<and> rigid_point (pose_R head_pose) (pose_t head_pose) (headrel_campos head_pose campos) = campos
       \<and> headrel_light_pos head_pose light_pos
           = map (\<lambda>l. matvec (transpose (pose_R head_pose)) (vsub l (pose_t head_pose))) light_pos
       \<and> map (rigid_point (pose_R head_pose) (pose_t head_pose)) (headrel_light_pos head_pose light_pos)
           = light_pos
       \<and> headrel_campos (rigid_pose Q s head_pose) (rigid_point Q s campos)
           = headrel_campos head_pose campos
       \<and> headrel_light_pos (rigid_pose Q s head_pose) (map (rigid_point Q s) light_pos)
           = headrel_light_pos head_pose light_pos"
proof (intro conjI)
  show "headrel_campos head_pose campos
      = matvec (transpose (pose_R head_pose)) (vsub campos (pose_t head_pose))"
    by (simp only: headrel_campos_def vecmat_transpose)
  show "rigid_point (pose_R head_pose) (pose_t head_pose) (headrel_campos head_pose campos) = campos"
    using pose cam by (intro headframe_point)
  show "headrel_light_pos head_pose light_pos
      = map (\<lambda>l. matvec (transpose (pose_R head_pose)) (vsub l (pose_t head_pose))) light_pos"
    by (simp only: headrel_light_pos_def vecmat_transpose)
  have l3: "length l = 3" if "l \<in> set light_pos" for l
    using lights that by (simp add: list_all_iff)
  have "map (rigid_point (pose_R head_pose) (pose_t head_pose)) (headrel_light_pos head_pose light_pos)
      = map (\<lambda>l. rigid_point (pose_R head_pose) (pose_t head_pose) (headrel_campos head_pose l)) light_pos"
    by (simp add: headrel_light_pos_map comp_def)
  also have "\<dots> = map (\<lambda>l. l) light_pos"
    by (rule map_cong [OF refl]) (simp add: headframe_point pose l3)
  finally show "map (rigid_point (pose_R head_pose) (pose_t head_pose))
      (headrel_light_pos head_pose light_pos) = light_pos"
    by simp
  show "headrel_campos (rigid_pose Q s head_pose) (rigid_point Q s campos)
      = headrel_campos head_pose campos"
    using pose(1) cam motion by (intro invariant_point)
  have "headrel_light_pos (rigid_pose Q s head_pose) (map (rigid_point Q s) light_pos)
      = map (\<lambda>l. headrel_campos (rigid_pose Q s head_pose) (rigid_point Q s l)) light_pos"
    by (simp add: headrel_light_pos_map comp_def)
  also have "\<dots> = map (headrel_campos head_pose) light_pos"
    by (rule map_cong [OF refl]) (simp add: invariant_point pose(1) motion l3)
  finally show "headrel_light_pos (rigid_pose Q s head_pose) (map (rigid_point Q s) light_pos)
      = headrel_light_pos head_pose light_pos"
    by (simp add: headrel_light_pos_map)
qed


theorem headrel_positions_witness:
  "has_shape 3 4 [[0, -1, 0, 1], [1, 0, 0, 2], [0, 0, 1, 3]]
   \<and> orthonormal (pose_R [[0, -1, 0, 1], [1, 0, 0, 2], [0, 0, 1, 3]])
   \<and> has_shape 3 3 [[1, 0, 0], [0, 0, -1], [0, 1, 0]]
   \<and> orthonormal [[1, 0, 0], [0, 0, -1], [0, 1, 0]]
   \<and> headrel_campos [[0, -1, 0, 1], [1, 0, 0, 2], [0, 0, 1, 3]] [2, 2, 3] = [0, -1, 0]
   \<and> rigid_pose [[1, 0, 0], [0, 0, -1], [0, 1, 0]] [5, 6, 7] [[0, -1, 0, 1], [1, 0, 0, 2], [0, 0, 1, 3]]
       = [[0, -1, 0, 6], [0, 0, -1, 3], [1, 0, 0, 9]]
   \<and> rigid_point [[1, 0, 0], [0, 0, -1], [0, 1, 0]] [5, 6, 7] [2, 2, 3] = [7, 3, 9]
   \<and> headrel_campos [[0, -1, 0, 6], [0, 0, -1, 3], [1, 0, 0, 9]] [7, 3, 9] = [0, -1, 0]
   \<and> headrel_light_pos [[0, -1, 0, 6], [0, 0, -1, 3], [1, 0, 0, 9]]
         (map (rigid_point [[1, 0, 0], [0, 0, -1], [0, 1, 0]] [5, 6, 7]) [[1, 3, 3], [4, 4, 4]])
       = headrel_light_pos [[0, -1, 0, 1], [1, 0, 0, 2], [0, 0, 1, 3]] [[1, 3, 3], [4, 4, 4]]"
proof -
  let ?P = "[[0, -1, 0, 1], [1, 0, 0, 2], [0, 0, 1, 3]] :: mat"
  let ?Q = "[[1, 0, 0], [0, 0, -1], [0, 1, 0]] :: mat"
  let ?s = "[5, 6, 7] :: vec"
  let ?c = "[2, 2, 3] :: vec"
  let ?ls = "[[1, 3, 3], [4, 4, 4]] :: vec list"
  have P: "has_shape 3 4 ?P" and Q: "has_shape 3 3 ?Q"
    by (simp_all add: has_shape_def)
  have oP: "orthonormal (pose_R ?P)" and oQ: "orthonormal ?Q"
    by (simp_all add: orthonormal_def pose_R_def I3_def ops)
  have c: "length ?c = 3" and s: "length ?s = 3" and ls: "list_all (\<lambda>l. length l = 3) ?ls"
    by simp_all
  have rp: "rigid_pose ?Q ?s ?P = [[0, -1, 0, 6], [0, 0, -1, 3], [1, 0, 0, 9]]"
    by (simp add: rigid_pose_def rigid_point_def pose_R_def pose_t_def ops)
  have rc: "rigid_point ?Q ?s ?c = [7, 3, 9]"
    by (simp add: rigid_point_def ops)
  have h: "headrel_campos ?P ?c = [0, -1, 0]"
    by (simp add: headrel_campos_def pose_R_def pose_t_def ops)
  note th = headrel_positions [OF P oP c ls Q oQ s]
  from th have "headrel_campos (rigid_pose ?Q ?s ?P) (rigid_point ?Q ?s ?c) = headrel_campos ?P ?c"
    by (elim conjE)
  then have h': "headrel_campos [[0, -1, 0, 6], [0, 0, -1, 3], [1, 0, 0, 9]] [7, 3, 9] = [0, -1, 0]"
    by (simp only: rp rc h)
  from th have "headrel_light_pos (rigid_pose ?Q ?s ?P) (map (rigid_point ?Q ?s) ?ls)
      = headrel_light_pos ?P ?ls"
    by (elim conjE)
  then have l': "headrel_light_pos [[0, -1, 0, 6], [0, 0, -1, 3], [1, 0, 0, 9]]
      (map (rigid_point ?Q ?s) ?ls) = headrel_light_pos ?P ?ls"
    by (simp only: rp)
  from P oP Q oQ h rp rc h' l' show ?thesis
    by (intro conjI)
qed

section \<open>Properties of PrimDecoder.forward\<close>

lemma sum_sq_div: "sum_list (map (\<lambda>x::real. (x / c)\<^sup>2) v) = sum_list (map (\<lambda>x. x\<^sup>2) v) / c\<^sup>2"
  by (induction v) (simp_all add: power_divide add_divide_distrib)

lemma sum_sq_nonneg: "0 \<le> sum_list (map (\<lambda>x::real. x\<^sup>2) v)"
  by (induction v) simp_all

lemma norm2_nonneg: "0 \<le> norm2 v"
  by (simp add: norm2_def sum_sq_nonneg)

lemma eps_pos: "0 < eps"
  by (simp add: eps_def)

lemma norm2_F_normalize: "norm2 (F_normalize v) = norm2 v / max (norm2 v) eps"
proof -
  let ?c = "max (norm2 v) eps"
  have c: "0 < ?c"
    using eps_pos by (simp add: max_def)
  have "norm2 (F_normalize v) = sqrt (sum_list (map (\<lambda>x. x\<^sup>2) v) / ?c\<^sup>2)"
    by (simp add: norm2_def F_normalize_def comp_def sum_sq_div)
  also have "\<dots> = sqrt (sum_list (map (\<lambda>x. x\<^sup>2) v)) / ?c"
    using c by (simp add: real_sqrt_divide)
  finally show ?thesis
    by (simp add: norm2_def)
qed

lemma F_normalize_unit: "eps \<le> norm2 v \<Longrightarrow> norm2 (F_normalize v) = 1"
  using eps_pos by (simp add: norm2_F_normalize max_def)


lemma F_normalize_short: "norm2 v < eps \<Longrightarrow> norm2 (F_normalize v) < 1"
  using eps_pos by (simp add: norm2_F_normalize max_def)

lemma length_F_normalize [simp]: "length (F_normalize v) = length v"
  by (simp add: F_normalize_def)

lemma reflect_sq:
  "length v = length n \<Longrightarrow>
   sum_list (map (\<lambda>x. x\<^sup>2) (vsub v (smul s n)))
     = sum_list (map (\<lambda>x. x\<^sup>2) v) - 2 * s * sum_list (map2 (*) v n)
       + s\<^sup>2 * sum_list (map (\<lambda>x. x\<^sup>2) n)"
  by (induction v n rule: list_induct2) (simp_all add: vsub_def smul_def power2_eq_square algebra_simps)

lemma reflect_norm:
  assumes "length v = length n" and "norm2 n = 1"
  shows "norm2 (reflect v n) = norm2 v"
proof -
  let ?d = "sum_list (map2 (*) v n)"
  from assms(2) have n1: "sum_list (map (\<lambda>x. x\<^sup>2) n) = 1"
    by (simp add: norm2_def)
  have "sum_list (map (\<lambda>x. x\<^sup>2) (reflect v n))
      = sum_list (map (\<lambda>x. x\<^sup>2) v) - 2 * (2 * ?d) * ?d + (2 * ?d)\<^sup>2 * 1"
    unfolding reflect_def using reflect_sq [OF assms(1), of "2 * ?d"] by (simp add: n1)
  also have "\<dots> = sum_list (map (\<lambda>x. x\<^sup>2) v)"
    by (simp add: power2_eq_square)
  finally show ?thesis
    by (simp add: norm2_def)
qed


text \<open>When \<^verbatim>\<open>forward\<close> returns, when it raises, and what it returns.\<close>

lemma n_mono_pos: "0 < n_mono_sh_coeffs d \<longleftrightarrow> color_sh_degree d < diff_sh_degree d"
proof -
  let ?c = "color_sh_degree d" and ?d = "diff_sh_degree d"
  have "(int ?c + 1)\<^sup>2 < (int ?d + 1)\<^sup>2 \<longleftrightarrow> ?c < ?d"
  proof
    assume "(int ?c + 1)\<^sup>2 < (int ?d + 1)\<^sup>2"
    then have "int ?c + 1 < int ?d + 1"
      by (rule power2_less_imp_less) simp
    then show "?c < ?d" by simp
  next
    assume "?c < ?d"
    then have "int ?c + 1 < int ?d + 1" by simp
    then show "(int ?c + 1)\<^sup>2 < (int ?d + 1)\<^sup>2"
      by (intro power_strict_mono) simp_all
  qed
  moreover have "int ((?c + 1)\<^sup>2) = (int ?c + 1)\<^sup>2"
    by simp
  ultimately show ?thesis
    by (simp only: n_mono_sh_coeffs_def n_color_sh_coeffs_def diff_gt_0_iff_gt)
qed

lemma forward_Inr:
  assumes "PrimDecoder_forward d k code geom hcampos li hlp hls nl env rot = Inr r"
  obtains scol where
    "color_sh_degree d < diff_sh_degree d"
    "specular k (ref_dirs_of d code geom hcampos) (sigma_of d (f_vnocond_of d code))
       (map (\<lambda>fc. map (sigmoid d) (take 1 fc)) (f_vcond_of d code hcampos))
       (primpos_all d code geom) li hlp nl env rot = Inr scol"
    "r = \<lparr>color = map2 (\<lambda>dc sc. map (clamp_min 0.0) (vadd dc sc))
                 (map2 (\<lambda>a sh. diff_color_of a sh hls) (albedo d)
                    (map (diff_shs_of d) (f_vnocond_of d code))) scol,
          opacity = map (opacity_of d) (f_vnocond_of d code),
          primpos = primpos_all d code geom,
          primqvec = map (primqvec_of d) (f_vnocond_of d code),
          primscale = map (primscale_of d) (f_vnocond_of d code),
          sigma = sigma_of d (f_vnocond_of d code),
          spec_vis = map (\<lambda>fc. map (sigmoid d) (take 1 fc)) (f_vcond_of d code hcampos),
          spec_nml = map F_normalize (spec_nml_raw d code geom hcampos),
          spec_dnml = map (drop 1) (f_vcond_of d code hcampos),
          diff_color = map2 (\<lambda>a sh. diff_color_of a sh hls) (albedo d)
                    (map (diff_shs_of d) (f_vnocond_of d code)),
          spec_color = scol\<rparr>"
proof -
  from assms have pos: "\<not> n_mono_sh_coeffs d \<le> 0"
    unfolding PrimDecoder_forward_def by (auto split: if_splits)
  then have deg: "color_sh_degree d < diff_sh_degree d"
    using n_mono_pos [of d] by simp
  from assms pos obtain scol where
    s: "specular k (ref_dirs_of d code geom hcampos) (sigma_of d (f_vnocond_of d code))
       (map (\<lambda>fc. map (sigmoid d) (take 1 fc)) (f_vcond_of d code hcampos))
       (primpos_all d code geom) li hlp nl env rot = Inr scol"
    and r: "r = \<lparr>color = map2 (\<lambda>dc sc. map (clamp_min 0.0) (vadd dc sc))
                 (map2 (\<lambda>a sh. diff_color_of a sh hls) (albedo d)
                    (map (diff_shs_of d) (f_vnocond_of d code))) scol,
          opacity = map (opacity_of d) (f_vnocond_of d code),
          primpos = primpos_all d code geom,
          primqvec = map (primqvec_of d) (f_vnocond_of d code),
          primscale = map (primscale_of d) (f_vnocond_of d code),
          sigma = sigma_of d (f_vnocond_of d code),
          spec_vis = map (\<lambda>fc. map (sigmoid d) (take 1 fc)) (f_vcond_of d code hcampos),
          spec_nml = map F_normalize (spec_nml_raw d code geom hcampos),
          spec_dnml = map (drop 1) (f_vcond_of d code hcampos),
          diff_color = map2 (\<lambda>a sh. diff_color_of a sh hls) (albedo d)
                    (map (diff_shs_of d) (f_vnocond_of d code)),
          spec_color = scol\<rparr>"
    unfolding PrimDecoder_forward_def Let_def bind_def
    by (auto split: sum.splits)
  show ?thesis
    using deg s r by (rule that)
qed

lemma specular_returns:
  "env = None \<or> rot \<noteq> None \<Longrightarrow> \<exists>scol. specular k rd sg vis pos li hlp nl env rot = Inr scol"
  by (auto simp: specular_def Let_def split: option.splits)

lemma forward_returns:
  assumes "color_sh_degree d < diff_sh_degree d" and "env = None \<or> rot \<noteq> None"
  shows "\<exists>r. PrimDecoder_forward d k code geom hcampos li hlp hls nl env rot = Inr r"
proof -
  from assms(2) obtain scol where "specular k (ref_dirs_of d code geom hcampos)
       (sigma_of d (f_vnocond_of d code))
       (map (\<lambda>fc. map (sigmoid d) (take 1 fc)) (f_vcond_of d code hcampos))
       (primpos_all d code geom) li hlp nl env rot = Inr scol"
    using specular_returns by blast
  moreover from assms(1) have "\<not> n_mono_sh_coeffs d \<le> 0"
    using n_mono_pos [of d] by simp
  ultimately show ?thesis
    by (simp add: PrimDecoder_forward_def Let_def bind_def)
qed



lemmas dec_eval = ref_dirs_of_def primpos_all_def spec_nml_raw_def vn_of_def f_vnocond_of_def
  f_vcond_of_def primpos_of_def f_geom_of_def
  n_diff_coeffs_def n_color_sh_coeffs_def n_mono_sh_coeffs_def slice_def view_local_of_def
  reflect_def F_normalize_def norm2_def eps_def vadd_def vsub_def smul_def

lemma reflect_nth:
  assumes "length v = length n" and "j < length v"
  shows "reflect v n ! j = v ! j - 2 * sum_list (map2 (*) v n) * n ! j"
  using assms by (simp add: reflect_def vsub_def smul_def)

text \<open>
  C6. For every view direction \<open>v\<close> and every unit-norm specular normal \<open>n\<close> of the same
  dimension, the reflection direction \<open>v - 2 (v \<cdot> n) n\<close> has the Euclidean norm of \<open>v\<close>.
  The reflection direction \<^verbatim>\<open>forward\<close> computes for a Gaussian is this reflection of the
  normalised view vector at the normalised specular normal; it is a unit vector whenever
  the Gaussian's distance to the camera and the norm of its specular normal before
  normalisation, \<^verbatim>\<open>spec_dnml + vn\<close>, both lie between \<open>eps\<close> and \<open>10\<^sup>1\<^sup>8\<close>: then \<^verbatim>\<open>F.normalize\<close>
  makes both vectors unit vectors.
\<close>

theorem reflection_norm:
  "(length v = length n \<longrightarrow>
      (\<forall>j < length v. reflect v n ! j = v ! j - 2 * sum_list (map2 (*) v n) * n ! j)
    \<and> (norm2 n = 1 \<longrightarrow> norm2 (reflect v n) = norm2 v))
   \<and> (\<forall>i < length (ref_dirs_of d code geom hcampos).
         ref_dirs_of d code geom hcampos ! i
           = reflect (F_normalize (vsub (primpos_all d code geom ! i) hcampos))
               (F_normalize (spec_nml_raw d code geom hcampos ! i))
       \<and> (length (vsub (primpos_all d code geom ! i) hcampos)
             = length (spec_nml_raw d code geom hcampos ! i) \<longrightarrow>
          eps \<le> norm2 (vsub (primpos_all d code geom ! i) hcampos) \<longrightarrow>
          norm2 (vsub (primpos_all d code geom ! i) hcampos) \<le> 10 ^ 18 \<longrightarrow>
          eps \<le> norm2 (spec_nml_raw d code geom hcampos ! i) \<longrightarrow>
          norm2 (spec_nml_raw d code geom hcampos ! i) \<le> 10 ^ 18 \<longrightarrow>
          norm2 (ref_dirs_of d code geom hcampos ! i) = 1))"
proof (intro conjI allI impI)
  fix j assume "length v = length n" "j < length v"
  then show "reflect v n ! j = v ! j - 2 * sum_list (map2 (*) v n) * n ! j"
    by (rule reflect_nth)
next
  assume "length v = length n" "norm2 n = 1"
  then show "norm2 (reflect v n) = norm2 v"
    by (rule reflect_norm)
next
  fix i
  let ?p = "primpos_all d code geom ! i" and ?m = "spec_nml_raw d code geom hcampos ! i"
  assume i: "i < length (ref_dirs_of d code geom hcampos)"
  then show r: "ref_dirs_of d code geom hcampos ! i
      = reflect (F_normalize (vsub ?p hcampos)) (F_normalize ?m)"
    by (simp add: ref_dirs_of_def view_local_of_def)
  assume len: "length (vsub ?p hcampos) = length ?m"
    and v: "eps \<le> norm2 (vsub ?p hcampos)" and m: "eps \<le> norm2 ?m"
  have "norm2 (reflect (F_normalize (vsub ?p hcampos)) (F_normalize ?m))
      = norm2 (F_normalize (vsub ?p hcampos))"
    using len m by (intro reflect_norm F_normalize_unit) simp
  also have "\<dots> = 1"
    using v by (rule F_normalize_unit)
  finally show "norm2 (ref_dirs_of d code geom hcampos ! i) = 1"
    by (simp only: r)
qed

theorem reflection_norm_witness:
  "norm2 [0, 1] = 1 \<and> reflect [3, 4] [0, 1] = [3, - 4]
   \<and> norm2 (reflect [3, 4] [0, 1]) = norm2 [3, 4]
   \<and> ref_dirs_of (one_gaussian [0, 0, 0, 0, 0, 0, 0, 0, 0, 0, 0, 0, 0, 0, 0, 0, 0, 0] [0, 3, 0, 3]
          [1, 2, 3] [0, 0, 2]) [] () [1, 2, 5] = [[24 / 25, 0, 7 / 25]]
   \<and> norm2 (ref_dirs_of (one_gaussian [0, 0, 0, 0, 0, 0, 0, 0, 0, 0, 0, 0, 0, 0, 0, 0, 0, 0] [0, 3, 0, 3]
          [1, 2, 3] [0, 0, 2]) [] () [1, 2, 5] ! 0) = 1"
proof -
  let ?d = "one_gaussian [0, 0, 0, 0, 0, 0, 0, 0, 0, 0, 0, 0, 0, 0, 0, 0, 0, 0] [0, 3, 0, 3] [1, 2, 3] [0, 0, 2]"
  note th = reflection_norm [of "[3, 4]" "[0, 1]" ?d "[]" "()" "[1, 2, 5]"]
  have n: "norm2 [0, 1] = 1"
    by (simp add: norm2_def)
  from th n have a: "norm2 (reflect [3, 4] [0, 1]) = norm2 [3, 4]"
    by simp
  have b: "reflect [3, 4] [0, 1] = [3, - 4]"
    by (simp add: reflect_def vsub_def smul_def)
  have s: "sqrt 4 = 2" "sqrt 25 = 5"
    by (simp_all add: real_sqrt_unique)
  have p: "primpos_all ?d [] () = [[1, 2, 3]]"
    by (simp add: dec_eval)
  have m: "spec_nml_raw ?d [] () [1, 2, 5] = [[3, 0, 4]]"
    by (simp add: dec_eval s)
  have r: "ref_dirs_of ?d [] () [1, 2, 5] = [[24 / 25, 0, 7 / 25]]"
    by (simp add: dec_eval s)
  have "eps \<le> norm2 (vsub (primpos_all ?d [] () ! 0) [1, 2, 5])"
    "norm2 (vsub (primpos_all ?d [] () ! 0) [1, 2, 5]) \<le> 10 ^ 18"
    "eps \<le> norm2 (spec_nml_raw ?d [] () [1, 2, 5] ! 0)"
    "norm2 (spec_nml_raw ?d [] () [1, 2, 5] ! 0) \<le> 10 ^ 18"
    "length (vsub (primpos_all ?d [] () ! 0) [1, 2, 5]) = length (spec_nml_raw ?d [] () [1, 2, 5] ! 0)"
    "0 < length (ref_dirs_of ?d [] () [1, 2, 5])"
    unfolding p m r by (simp_all add: norm2_def eps_def vsub_def s)
  with th have u: "norm2 (ref_dirs_of ?d [] () [1, 2, 5] ! 0) = 1"
    by blast
  from n b a r u show ?thesis
    by (intro conjI)
qed

text \<open>
  A Gaussian at the camera position, on a decoder that runs (diffuse degree 1, colour
  degree 0): \<^verbatim>\<open>F.normalize\<close> leaves the zero view vector zero, and the reflection direction is
  the zero vector, not a unit vector.
\<close>

theorem reflection_not_unit_counterexample:
  "(\<exists>r. PrimDecoder_forward
          (one_gaussian [0, 0, 0, 0, 0, 0, 0, 0, 0, 0, 0, 0, 0, 0, 0, 0, 0, 0] [0, 3, 0, 3]
             [1, 2, 3] [0, 0, 2])
          test_kernels [] () [1, 2, 3] [[1, 1, 1]] [[0, 0, 9]] [[1, 0, 0, 0], [1, 0, 0, 0], [1, 0, 0, 0]]
          1 None None = Inr r)
   \<and> ref_dirs_of (one_gaussian [0, 0, 0, 0, 0, 0, 0, 0, 0, 0, 0, 0, 0, 0, 0, 0, 0, 0] [0, 3, 0, 3]
      [1, 2, 3] [0, 0, 2]) [] () [1, 2, 3] = [[0, 0, 0]]
   \<and> norm2 (ref_dirs_of (one_gaussian [0, 0, 0, 0, 0, 0, 0, 0, 0, 0, 0, 0, 0, 0, 0, 0, 0, 0] [0, 3, 0, 3]
      [1, 2, 3] [0, 0, 2]) [] () [1, 2, 3] ! 0) \<noteq> 1"
proof -
  have s: "sqrt 4 = 2" "sqrt 25 = 5"
    by (simp_all add: real_sqrt_unique)
  show ?thesis
    by (intro conjI forward_returns) (simp_all add: dec_eval s)
qed


lemmas forward_eval = PrimDecoder_forward_def specular_def dec_eval sigma_of_def primqvec_of_def
  primscale_of_def opacity_of_def diff_shs_of_def diff_color_of_def
  bmul_def clamp_min_def clamp_max_def matvec_def dot_def Let_def










lemma sum_list_nth_lessThan: "sum_list xs = (\<Sum>i<length xs. xs ! i)"
  for xs :: "real list"
  by (simp add: sum_list_sum_nth atLeast0LessThan)

lemma sum_list_map_nth: "sum_list (map g ts) = (\<Sum>l<length ts. g (ts ! l))"
  for g :: "'a \<Rightarrow> real"
  by (induction ts rule: rev_induct) (simp_all add: nth_append)

lemma dot_sum_nth:
  "length xs = K \<Longrightarrow> length ys = K \<Longrightarrow> sum_list (map2 (*) xs ys) = (\<Sum>k<K. xs ! k * ys ! k)"
  for xs :: "real list"
  by (simp add: sum_list_nth_lessThan)

lemma sum_dim_nth:
  assumes "\<And>t. t \<in> set ts \<Longrightarrow> length t = rows \<and> (\<forall>row \<in> set t. length row = cols)"
  shows "length (sum_dim rows cols ts) = rows
       \<and> (\<forall>c < rows. length (sum_dim rows cols ts ! c) = cols
             \<and> (\<forall>k < cols. sum_dim rows cols ts ! c ! k = sum_list (map (\<lambda>t. t ! c ! k) ts)))"
  using assms
proof (induction ts)
  case Nil
  show ?case by (simp add: sum_dim_def)
next
  case (Cons t ts)
  let ?S = "sum_dim rows cols ts"
  have S: "length ?S = rows"
    and Sc: "\<And>c. c < rows \<Longrightarrow> length (?S ! c) = cols"
    and Sk: "\<And>c k. c < rows \<Longrightarrow> k < cols \<Longrightarrow> ?S ! c ! k = sum_list (map (\<lambda>t. t ! c ! k) ts)"
    using Cons.IH Cons.prems by auto
  have t: "length t = rows" and tc: "\<And>c. c < rows \<Longrightarrow> length (t ! c) = cols"
    using Cons.prems [of t] by auto
  have step: "sum_dim rows cols (t # ts) = map2 (map2 (+)) t ?S"
    by (simp add: sum_dim_def)
  show ?case
    unfolding step using S Sc Sk t tc by simp
qed

lemma light_sh_term_nth:
  "c < length intensity \<Longrightarrow> k < length sh \<Longrightarrow> light_sh_term sh intensity ! c ! k = sh ! k * intensity ! c"
  by (simp add: light_sh_term_def)

lemma light_sh_term_shape:
  "length (light_sh_term sh intensity) = length intensity"
  "row \<in> set (light_sh_term sh intensity) \<Longrightarrow> length row = length sh"
  by (auto simp: light_sh_term_def)


lemma length_headrel_light_dir: "length (headrel_light_dir P lp) = length lp"
  by (simp add: headrel_light_dir_def headrel_light_pos_def)

lemma headrel_light_dir_nth:
  "l < length lp \<Longrightarrow> headrel_light_dir P lp ! l = F_normalize (headrel_light_pos P lp ! l)"
  by (simp add: headrel_light_dir_def headrel_light_pos_def)

lemma headrel_light_sh_nth:
  assumes basis: "\<And>dir. length (dir2sh n dir) = n_sh_coeffs n"
    and lights: "length light_intensity = length light_pos"
    and chans: "\<And>l. l < length light_pos \<Longrightarrow> length (expand3 (light_intensity ! l)) = 3"
  shows "length (headrel_light_sh dir2sh n P light_pos light_intensity) = 3"
    and "c < 3 \<Longrightarrow> length (headrel_light_sh dir2sh n P light_pos light_intensity ! c) = n_sh_coeffs n"
    and "c < 3 \<Longrightarrow> k < n_sh_coeffs n \<Longrightarrow>
         headrel_light_sh dir2sh n P light_pos light_intensity ! c ! k
           = (\<Sum>l < length light_pos.
                dir2sh n (F_normalize (headrel_light_pos P light_pos ! l)) ! k
                  * expand3 (light_intensity ! l) ! c)"
proof -
  let ?K = "n_sh_coeffs n"
  let ?sh = "map (dir2sh n) (headrel_light_dir P light_pos)"
  let ?int = "map expand3 light_intensity"
  let ?ts = "map2 light_sh_term ?sh ?int"
  have L: "length ?ts = length light_pos"
    using lights by (simp add: length_headrel_light_dir)
  have nth: "?ts ! l = light_sh_term (dir2sh n (F_normalize (headrel_light_pos P light_pos ! l)))
      (expand3 (light_intensity ! l))" if "l < length light_pos" for l
    using that lights by (simp add: length_headrel_light_dir headrel_light_dir_nth)
  have shape: "length t = 3 \<and> (\<forall>row \<in> set t. length row = ?K)" if "t \<in> set ?ts" for t
  proof -
    from that obtain l where l: "l < length ?ts" "t = ?ts ! l"
      unfolding in_set_conv_nth by blast
    from l(1) have ll: "l < length light_pos"
      by (simp only: L)
    with l(2) have "t = light_sh_term (dir2sh n (F_normalize (headrel_light_pos P light_pos ! l)))
      (expand3 (light_intensity ! l))"
      by (simp only: nth)
    with ll have "t = light_sh_term (dir2sh n (F_normalize (headrel_light_pos P light_pos ! l)))
      (expand3 (light_intensity ! l))" and "l < length light_pos"
      by simp_all
    then show ?thesis
      using chans basis by (simp add: light_sh_term_shape)
  qed
  have hl: "headrel_light_sh dir2sh n P light_pos light_intensity = sum_dim 3 ?K ?ts"
    by (simp add: headrel_light_sh_def Let_def)
  note sd = sum_dim_nth [of ?ts 3 ?K, OF shape]
  show "length (headrel_light_sh dir2sh n P light_pos light_intensity) = 3"
    unfolding hl using sd by blast
  show "length (headrel_light_sh dir2sh n P light_pos light_intensity ! c) = ?K" if "c < 3"
    unfolding hl using sd that by blast
  show "headrel_light_sh dir2sh n P light_pos light_intensity ! c ! k
           = (\<Sum>l < length light_pos.
                dir2sh n (F_normalize (headrel_light_pos P light_pos ! l)) ! k
                  * expand3 (light_intensity ! l) ! c)" if c: "c < 3" and k: "k < ?K"
  proof -
    have "sum_dim 3 ?K ?ts ! c ! k = sum_list (map (\<lambda>t. t ! c ! k) ?ts)"
      using sd c k by blast
    also have "\<dots> = (\<Sum>l < length ?ts. ?ts ! l ! c ! k)"
      by (rule sum_list_map_nth)
    also have "\<dots> = (\<Sum>l < length light_pos. ?ts ! l ! c ! k)"
      by (simp only: L)
    also have "\<dots> = (\<Sum>l < length light_pos.
                dir2sh n (F_normalize (headrel_light_pos P light_pos ! l)) ! k
                  * expand3 (light_intensity ! l) ! c)"
      by (rule sum.cong [OF refl]) (simp add: nth light_sh_term_nth chans basis c k)
    finally show ?thesis
      by (simp only: hl)
  qed
qed


lemma expand3_length: "length v = 1 \<or> length v = 3 \<Longrightarrow> length (expand3 v) = 3"
  by (auto simp: expand3_def)

lemma n_color_le:
  "color_sh_degree d \<le> diff_sh_degree d \<Longrightarrow> n_color_sh_coeffs d \<le> (diff_sh_degree d + 1)\<^sup>2"
  by (simp add: n_color_sh_coeffs_def power_mono)

lemma n_diff_coeffs_eq:
  "color_sh_degree d \<le> diff_sh_degree d \<Longrightarrow>
   nat (n_diff_coeffs d) = 2 * n_color_sh_coeffs d + n_sh_coeffs (diff_sh_degree d)"
proof -
  have "n_diff_coeffs d = int (2 * n_color_sh_coeffs d + n_sh_coeffs (diff_sh_degree d))"
    by (simp add: n_diff_coeffs_def n_mono_sh_coeffs_def n_sh_coeffs_def)
  then show ?thesis
    by (simp only: nat_int)
qed

lemma diff_shs_row:
  assumes "c < 3"
  shows "diff_shs_of d f ! c
     = slice (c * n_color_sh_coeffs d) ((c + 1) * n_color_sh_coeffs d)
         (take (n_color_sh_coeffs d * 3) (take (nat (n_diff_coeffs d)) f))
       @ drop (n_color_sh_coeffs d * 3) (take (nat (n_diff_coeffs d)) f)"
proof -
  from assms have "c = 0 \<or> c = 1 \<or> c = 2"
    by arith
  then show ?thesis
    by (auto simp: diff_shs_of_def Let_def)
qed

lemma diff_shs_layout:
  assumes deg: "color_sh_degree d \<le> diff_sh_degree d" and f: "nat (n_diff_coeffs d) \<le> length f"
    and c: "c < 3"
  shows "length (diff_shs_of d f ! c) = n_sh_coeffs (diff_sh_degree d)"
    and "k < n_sh_coeffs (diff_sh_degree d) \<Longrightarrow>
         diff_shs_of d f ! c ! k
           = (if k < n_color_sh_coeffs d then f ! (c * n_color_sh_coeffs d + k)
              else f ! (3 * n_color_sh_coeffs d + (k - n_color_sh_coeffs d)))"
proof -
  let ?nc = "n_color_sh_coeffs d" and ?K = "n_sh_coeffs (diff_sh_degree d)"
  have nd: "nat (n_diff_coeffs d) = 2 * ?nc + ?K" and le: "?nc \<le> ?K"
    using n_diff_coeffs_eq [OF deg] n_color_le [OF deg] by (simp_all add: n_sh_coeffs_def)
  from c have cc: "c = 0 \<or> c = 1 \<or> c = 2"
    by arith
  let ?col = "slice (c * ?nc) ((c + 1) * ?nc) (take (?nc * 3) (take (nat (n_diff_coeffs d)) f))"
  let ?mono = "drop (?nc * 3) (take (nat (n_diff_coeffs d)) f)"
  have lc: "length ?col = ?nc"
    using cc f nd le by (auto simp: slice_def)
  have lm: "length ?mono = ?K - ?nc"
    using f nd le by simp
  show "length (diff_shs_of d f ! c) = ?K"
    using lc lm le by (simp add: diff_shs_row [OF c])
  assume k: "k < ?K"
  show "diff_shs_of d f ! c ! k
           = (if k < ?nc then f ! (c * ?nc + k) else f ! (3 * ?nc + (k - ?nc)))"
  proof (cases "k < ?nc")
    case True
    then have "diff_shs_of d f ! c ! k = ?col ! k"
      using lc by (simp add: diff_shs_row [OF c] nth_append)
    also have "\<dots> = f ! (c * ?nc + k)"
      using True cc f nd le by (auto simp: slice_def)
    finally show ?thesis
      using True by simp
  next
    case False
    then have "diff_shs_of d f ! c ! k = ?mono ! (k - ?nc)"
      using lc by (simp add: diff_shs_row [OF c] nth_append)
    also have "\<dots> = f ! (3 * ?nc + (k - ?nc))"
      using False k f nd le by (simp add: mult.commute)
    finally show ?thesis
      using False by simp
  qed
qed

lemma diff_shs_length: "length (diff_shs_of d f) = 3"
  by (simp add: diff_shs_of_def Let_def)

lemma diff_color_of_nth:
  assumes "length alb = 3" and "length sh = 3" and "length light = 3"
    and "\<And>c. c < 3 \<Longrightarrow> length (sh ! c) = K" and "\<And>c. c < 3 \<Longrightarrow> length (light ! c) = K"
  shows "length (diff_color_of alb sh light) = 3"
    and "c < 3 \<Longrightarrow> diff_color_of alb sh light ! c = alb ! c * (\<Sum>k<K. sh ! c ! k * light ! c ! k)"
  using assms by (simp_all add: diff_color_of_def dot_sum_nth)


lemma forward_diff_color:
  "PrimDecoder_forward d k code geom hcampos li hlp hls nl env rot = Inr r \<Longrightarrow>
   diff_color r = map2 (\<lambda>a sh. diff_color_of a sh hls) (albedo d)
                    (map (diff_shs_of d) (f_vnocond_of d code))"
  by (erule forward_Inr) simp

text \<open>
  C3. With a basis of \<open>(n + 1)\<^sup>2\<close> functions for the degree \<open>n\<close> of the decoder
  (\<^verbatim>\<open>n_diff_sh\<close>), one intensity of one or three channels per light, and the colour degree
  not above the diffuse degree: entry \<open>(c, j)\<close> of the head-relative light SH vector is the
  sum over the lights of basis function \<open>j\<close> at the normalised head-relative light
  direction times the light's intensity in channel \<open>c\<close>; and for every Gaussian whose
  feature row holds the diffuse channels, the diffuse colour in channel \<open>c\<close> is the albedo
  times the sum over \<open>j\<close> of its decoded diffuse coefficient \<open>(c, j)\<close> times entry \<open>(c, j)\<close>
  of that light SH vector, where the decoded coefficients of channel \<open>c\<close> are the colour
  block of \<open>c\<close> followed by the monochrome block shared by the three channels.
\<close>

theorem sh_lighting:
  fixes d :: "('f, 'g) PrimDecoder" and k :: "'e kernels"
    and dir2sh :: "nat \<Rightarrow> vec \<Rightarrow> vec" and P :: mat and light_pos light_intensity :: "vec list"
  defines "K \<equiv> n_sh_coeffs (diff_sh_degree d)"
  defines "light_sh \<equiv> headrel_light_sh dir2sh (diff_sh_degree d) P light_pos light_intensity"
  assumes basis: "\<And>dir. length (dir2sh (diff_sh_degree d) dir) = K"
    and lights: "length light_intensity = length light_pos"
    and chans: "list_all (\<lambda>v. length v = 1 \<or> length v = 3) light_intensity"
    and degrees: "color_sh_degree d \<le> diff_sh_degree d"
  shows "(\<forall>c < 3. \<forall>j < K.
            light_sh ! c ! j
              = (\<Sum>l < length light_pos.
                   dir2sh (diff_sh_degree d) (F_normalize (headrel_light_pos P light_pos ! l)) ! j
                     * expand3 (light_intensity ! l) ! c))
       \<and> (\<forall>r. PrimDecoder_forward d k code geom hcampos (map expand3 light_intensity)
                 (headrel_light_pos P light_pos) light_sh nl env rot = Inr r \<longrightarrow>
            (\<forall>i < length (diff_color r).
               nat (n_diff_coeffs d) \<le> length (f_vnocond_of d code ! i) \<longrightarrow>
               length (albedo d ! i) = 3 \<longrightarrow>
               length (diff_color r ! i) = 3
               \<and> (\<forall>c < 3. diff_color r ! i ! c
                      = albedo d ! i ! c
                        * (\<Sum>j < K. diff_shs_of d (f_vnocond_of d code ! i) ! c ! j * light_sh ! c ! j)
                    \<and> (\<forall>j < K. diff_shs_of d (f_vnocond_of d code ! i) ! c ! j
                          = (if j < n_color_sh_coeffs d
                             then f_vnocond_of d code ! i ! (c * n_color_sh_coeffs d + j)
                             else f_vnocond_of d code ! i
                                    ! (3 * n_color_sh_coeffs d + (j - n_color_sh_coeffs d)))))))"
proof (intro conjI allI impI)
  have ch: "length (expand3 (light_intensity ! l)) = 3" if "l < length light_pos" for l
    using chans that lights by (intro expand3_length) (simp add: list_all_length)
  note ls = headrel_light_sh_nth [of dir2sh "diff_sh_degree d", OF basis [unfolded K_def] lights ch]
  show "light_sh ! c ! j
      = (\<Sum>l < length light_pos.
           dir2sh (diff_sh_degree d) (F_normalize (headrel_light_pos P light_pos ! l)) ! j
             * expand3 (light_intensity ! l) ! c)" if "c < 3" "j < K" for c j
    unfolding light_sh_def using that ls(3) [of c j P] by (simp add: K_def)
  fix r i
  assume r: "PrimDecoder_forward d k code geom hcampos (map expand3 light_intensity)
                 (headrel_light_pos P light_pos) light_sh nl env rot = Inr r"
    and i: "i < length (diff_color r)"
    and f: "nat (n_diff_coeffs d) \<le> length (f_vnocond_of d code ! i)"
    and a: "length (albedo d ! i) = 3"
  let ?f = "f_vnocond_of d code ! i"
  have dc: "diff_color r = map2 (\<lambda>a sh. diff_color_of a sh light_sh) (albedo d)
                    (map (diff_shs_of d) (f_vnocond_of d code))"
    using r by (rule forward_diff_color)
  with i have row: "diff_color r ! i = diff_color_of (albedo d ! i) (diff_shs_of d ?f) light_sh"
    by simp
  have l3: "length light_sh = 3" and lK: "\<And>c. c < 3 \<Longrightarrow> length (light_sh ! c) = K"
    unfolding light_sh_def K_def using ls(1,2) by blast+
  have sK: "\<And>c. c < 3 \<Longrightarrow> length (diff_shs_of d ?f ! c) = K"
    unfolding K_def using diff_shs_layout(1) [OF degrees f] by blast
  note dn = diff_color_of_nth [OF a diff_shs_length l3 sK lK]
  show "length (diff_color r ! i) = 3"
    unfolding row using dn(1) by blast
  fix c :: nat assume c: "c < 3"
  show "diff_color r ! i ! c
      = albedo d ! i ! c * (\<Sum>j < K. diff_shs_of d ?f ! c ! j * light_sh ! c ! j)"
    unfolding row using dn(2) c by blast
  fix j assume "j < K"
  then show "diff_shs_of d ?f ! c ! j
      = (if j < n_color_sh_coeffs d then ?f ! (c * n_color_sh_coeffs d + j)
         else ?f ! (3 * n_color_sh_coeffs d + (j - n_color_sh_coeffs d)))"
    unfolding K_def using diff_shs_layout(2) [OF degrees f c] by blast
qed


theorem sh_lighting_witness:
  "headrel_light_sh (\<lambda>n v. [1, v ! 0, v ! 1, v ! 2]) 1 [[0, -1, 0, 1], [1, 0, 0, 2], [0, 0, 1, 3]]
      [[3, 2, 3], [1, 5, 3]] [[2], [1, 2, 3]]
    = [[3, 1, -2, 0], [4, 2, -2, 0], [5, 3, -2, 0]]
   \<and> [[3, 1, -2, 0], [4, 2, -2, 0], [5, 3, -2, 0]] ! 1 ! 2
       = [1, 0, -1, 0] ! 2 * [2, 2, 2] ! 1 + [1, 1, 0, 0] ! 2 * [1, 2, 3 :: real] ! 1
   \<and> PrimDecoder_forward
       (one_gaussian [1, 2, 3, 4, 5, 6, 0, 0, 0, 0, 0, 0, 0, 0, 0, 0, 0, 0] [0, 0, 0, 0] [1, 2, 3]
           [0, 0, 1])
       test_kernels [] () [1, 2, 5] [[2, 2, 2], [1, 2, 3]] [[0, -2, 0], [3, 0, 0]]
       [[3, 1, -2, 0], [4, 2, -2, 0], [5, 3, -2, 0]] 2 None None
     = Inr \<lparr>color = [[0, 6, 341 / 20]], opacity = [[1 / 2]], primpos = [[1, 2, 3]],
           primqvec = [[0, 0, 0, 0]], primscale = [[ln 2, ln 2, ln 2]], sigma = [1 / 10],
           spec_vis = [[1 / 2]], spec_nml = [[0, 0, 1]], spec_dnml = [[0, 0, 0]],
           diff_color = [[-3, 6, 17]], spec_color = [[0, 0, 1 / 20]]\<rparr>
   \<and> [-3, 6, 17] ! 1 = [1, 1, 1] ! 1 * (2 * 4 + 4 * 2 + 5 * (-2) + 6 * (0 :: real))"
proof -
  let ?sh = "\<lambda>(n::nat) v. [1, v ! 0, v ! 1, v ! 2 :: real]"
  let ?P = "[[0, -1, 0, 1], [1, 0, 0, 2], [0, 0, 1, 3]] :: mat"
  let ?lp = "[[3, 2, 3], [1, 5, 3]] :: vec list"
  let ?li = "[[2], [1, 2, 3]] :: vec list"
  let ?f = "[1, 2, 3, 4, 5, 6, 0, 0, 0, 0, 0, 0, 0, 0, 0, 0, 0, 0] :: vec"
  let ?d = "one_gaussian ?f [0, 0, 0, 0] [1, 2, 3] [0, 0, 1]"
  let ?r = "\<lparr>color = [[0, 6, 341 / 20]], opacity = [[1 / 2]], primpos = [[1, 2, 3]],
           primqvec = [[0, 0, 0, 0]], primscale = [[ln 2, ln 2, ln 2]], sigma = [1 / 10],
           spec_vis = [[1 / 2]], spec_nml = [[0, 0, 1]], spec_dnml = [[0, 0, 0]],
           diff_color = [[-3, 6, 17]], spec_color = [[0, 0, 1 / 20]]\<rparr>"
  have hp: "headrel_light_pos ?P ?lp = [[0, -2, 0], [3, 0, 0]]"
    by (simp add: headrel_light_pos_def pose_R_def pose_t_def ops)
  have hs: "headrel_light_sh ?sh 1 ?P ?lp ?li = [[3, 1, -2, 0], [4, 2, -2, 0], [5, 3, -2, 0]]"
    by (simp add: headrel_light_sh_def headrel_light_dir_def hp sum_dim_def light_sh_term_def
        n_sh_coeffs_def expand3_def F_normalize_def norm2_def eps_def numeral_3_eq_3
        power2_eq_square)
  have ex: "map expand3 ?li = [[2, 2, 2], [1, 2, 3]]"
    by (simp add: expand3_def numeral_3_eq_3)
  have fw: "PrimDecoder_forward ?d test_kernels [] () [1, 2, 5] [[2, 2, 2], [1, 2, 3]]
      [[0, -2, 0], [3, 0, 0]] [[3, 1, -2, 0], [4, 2, -2, 0], [5, 3, -2, 0]] 2 None None = Inr ?r"
    by (simp add: forward_eval power2_eq_square real_sqrt_unique [of 2 4])
  have basis: "\<And>dir. length (?sh (diff_sh_degree ?d) dir) = n_sh_coeffs (diff_sh_degree ?d)"
    by (simp add: n_sh_coeffs_def power2_eq_square)
  have lights: "length ?li = length ?lp" and chans: "list_all (\<lambda>v. length v = 1 \<or> length v = 3) ?li"
    and degrees: "color_sh_degree ?d \<le> diff_sh_degree ?d"
    by simp_all
  note th = sh_lighting [where d = ?d and dir2sh = ?sh and P = ?P and k = test_kernels
      and code = "[]" and geom = "()" and hcampos = "[1, 2, 5]" and nl = 2 and env = None
      and rot = None, OF basis lights chans degrees]
  have K: "n_sh_coeffs (diff_sh_degree ?d) = 4"
    by (simp add: n_sh_coeffs_def power2_eq_square)
  note p1 = th [THEN conjunct1, rule_format, of 1 2]
  note p2 = th [THEN conjunct2, rule_format, of ?r 0, THEN conjunct2, rule_format, of 1,
      THEN conjunct1]
  have c3: "(1 :: nat) < 3" and jK: "2 < n_sh_coeffs (diff_sh_degree ?d)"
    by (simp_all add: n_sh_coeffs_def power2_eq_square)
  have a: "[[3, 1, -2, 0], [4, 2, -2, 0], [5, 3, -2, 0]] ! 1 ! 2
       = [1, 0, -1, 0] ! 2 * [2, 2, 2] ! 1 + [1, 1, 0, 0] ! 2 * [1, 2, 3 :: real] ! 1"
    using p1 [OF c3 jK] by simp
  have fv: "f_vnocond_of ?d [] ! 0 = ?f" and al: "albedo ?d ! 0 = [1, 1, 1]"
    by (simp_all add: f_vnocond_of_def)
  have ds: "diff_shs_of ?d ?f = [[1, 4, 5, 6], [2, 4, 5, 6], [3, 4, 5, 6]]"
    by (simp add: diff_shs_of_def n_diff_coeffs_def n_color_sh_coeffs_def n_mono_sh_coeffs_def
        slice_def Let_def power2_eq_square)
  have nd: "nat (n_diff_coeffs ?d) \<le> length (f_vnocond_of ?d [] ! 0)"
    by (simp add: f_vnocond_of_def n_diff_coeffs_def n_color_sh_coeffs_def n_mono_sh_coeffs_def
        power2_eq_square)
  have fw': "PrimDecoder_forward ?d test_kernels [] () [1, 2, 5] (map expand3 ?li)
      (headrel_light_pos ?P ?lp) (headrel_light_sh ?sh (diff_sh_degree ?d) ?P ?lp ?li) 2 None None
      = Inr ?r"
    using fw hs hp ex by simp
  have "diff_color ?r ! 0 ! 1
      = albedo ?d ! 0 ! 1
        * (\<Sum>j < n_sh_coeffs (diff_sh_degree ?d). diff_shs_of ?d (f_vnocond_of ?d [] ! 0) ! 1 ! j
             * headrel_light_sh ?sh (diff_sh_degree ?d) ?P ?lp ?li ! 1 ! j)"
    by (rule p2 [OF fw' _ nd]) (simp_all add: al)
  then have b: "[-3, 6, 17] ! 1 = [1, 1, 1] ! 1 * (2 * 4 + 4 * 2 + 5 * (-2) + 6 * (0 :: real))"
    by simp
  from hs a fw b show ?thesis
    by (intro conjI)
qed

section \<open>Properties of RGCASummary\<close>

lemma bind_lookup_Inr:
  "bind (lookup m key) f = Inr d \<longleftrightarrow> (\<exists>v. m key = Some v \<and> f v = Inr d)"
  by (simp add: lookup_def bind_def split: option.split)

lemma clamp_sub_fun:
  "map (clamp (-1) 1) (vsub rgb gt) = map2 (\<lambda>p g. min (max (p - g) (-1)) 1) rgb gt"
  by (simp add: vsub_def clamp_def map_zip_map2 case_prod_beta)

lemma build_diag_gt:
  "build_diag ops preds batch dc sc opa nml sig vis light_sh rgb alpha dep focal princpt ''gt''
     = map_option (\<lambda>gt. map (clamp 0 1) (linear2srgb ops gt)) (batch ''image'')"
  by (simp add: build_diag_def Let_def split: option.splits)

lemma build_diag_diff:
  "build_diag ops preds batch dc sc opa nml sig vis light_sh rgb alpha dep focal princpt ''diff''
     = map_option (diff_image ops rgb) (batch ''image'')"
  by (simp add: build_diag_def Let_def split: option.splits)

lemma summary_Inr:
  assumes "RGCASummary_call ops preds batch = Inr diag"
  obtains dc sc opa nml sig vis light_sh rgb alpha dep focal princpt
  where "preds ''rgb'' = Some rgb"
    and "diag = (\<lambda>key. map_option (to_grid ops)
              (build_diag ops preds batch dc sc opa nml sig vis light_sh rgb alpha dep focal
                 princpt key))"
  using assms unfolding RGCASummary_call_def bind_lookup_Inr by auto

lemma summary_returns:
  assumes "preds ''diff_color'' \<noteq> None" "preds ''spec_color'' \<noteq> None" "preds ''opacity'' \<noteq> None"
    "preds ''spec_nml'' \<noteq> None" "preds ''sigma'' \<noteq> None" "preds ''spec_vis'' \<noteq> None"
    "preds ''headrel_light_sh'' \<noteq> None" "preds ''rgb'' \<noteq> None" "preds ''alpha'' \<noteq> None"
    "preds ''depth'' \<noteq> None" "batch ''focal'' \<noteq> None" "batch ''princpt'' \<noteq> None"
  shows "\<exists>diag. RGCASummary_call ops preds batch = Inr diag"
  using assms by (auto simp: RGCASummary_call_def lookup_def)


text \<open>
  C9. Whenever the summary returns, the diagnostics hold the ground-truth image \<^verbatim>\<open>"gt"\<close>
  and the difference image \<^verbatim>\<open>"diff"\<close> if and only if the batch has an \<^verbatim>\<open>"image"\<close> entry; then
  \<^verbatim>\<open>"gt"\<close> is made from that image and \<^verbatim>\<open>"diff"\<close> from the predicted \<^verbatim>\<open>rgb\<close> minus that image,
  clamped to \<open>[-1, 1]\<close> value by value before \<^verbatim>\<open>scale_diff_image\<close>. The summary returns
  whenever \<^verbatim>\<open>preds\<close> and \<^verbatim>\<open>batch\<close> hold the entries it reads.
\<close>

theorem summary_ground_truth:
  "(\<forall>diag. RGCASummary_call ops preds batch = Inr diag \<longrightarrow>
        (''gt'' \<in> dom diag \<longleftrightarrow> ''image'' \<in> dom batch)
      \<and> (''diff'' \<in> dom diag \<longleftrightarrow> ''image'' \<in> dom batch)
      \<and> (\<forall>gt rgb. batch ''image'' = Some gt \<longrightarrow> preds ''rgb'' = Some rgb \<longrightarrow>
              diag ''gt'' = Some (to_grid ops (map (clamp 0 1) (linear2srgb ops gt)))
            \<and> diag ''diff''
                = Some (to_grid ops (map (clamp 0 1) (scale_diff_image ops
                    (map2 (\<lambda>p g. min (max (p - g) (-1)) 1) rgb gt))))))
   \<and> ({''diff_color'', ''spec_color'', ''opacity'', ''spec_nml'', ''sigma'', ''spec_vis'',
         ''headrel_light_sh'', ''rgb'', ''alpha'', ''depth''} \<subseteq> dom preds \<longrightarrow>
       {''focal'', ''princpt''} \<subseteq> dom batch \<longrightarrow>
       (\<exists>diag. RGCASummary_call ops preds batch = Inr diag))"
proof (intro conjI allI impI)
  fix diag assume r: "RGCASummary_call ops preds batch = Inr diag"
  then obtain dc sc opa nml sig vis light_sh rgb0 alpha dep focal princpt
    where rgb0: "preds ''rgb'' = Some rgb0"
      and d: "diag = (\<lambda>key. map_option (to_grid ops)
              (build_diag ops preds batch dc sc opa nml sig vis light_sh rgb0 alpha dep focal
                 princpt key))"
    by (rule summary_Inr)
  show "''gt'' \<in> dom diag \<longleftrightarrow> ''image'' \<in> dom batch"
    by (auto simp: d build_diag_gt dom_def)
  show "''diff'' \<in> dom diag \<longleftrightarrow> ''image'' \<in> dom batch"
    by (auto simp: d build_diag_diff dom_def)
  fix gt rgb assume g: "batch ''image'' = Some gt" and p: "preds ''rgb'' = Some rgb"
  from p rgb0 have e: "rgb0 = rgb"
    by simp
  show "diag ''gt'' = Some (to_grid ops (map (clamp 0 1) (linear2srgb ops gt)))"
    by (simp add: d build_diag_gt g)
  show "diag ''diff''
      = Some (to_grid ops (map (clamp 0 1) (scale_diff_image ops
          (map2 (\<lambda>p g. min (max (p - g) (-1)) 1) rgb gt))))"
    by (simp add: d build_diag_diff g e diff_image_def clamp_sub_fun)
next
  assume "{''diff_color'', ''spec_color'', ''opacity'', ''spec_nml'', ''sigma'', ''spec_vis'',
         ''headrel_light_sh'', ''rgb'', ''alpha'', ''depth''} \<subseteq> dom preds"
    and "{''focal'', ''princpt''} \<subseteq> dom batch"
  then show "\<exists>diag. RGCASummary_call ops preds batch = Inr diag"
    by (intro summary_returns) (auto simp: dom_def)
qed

theorem summary_ground_truth_witness:
  "(case RGCASummary_call test_ops test_preds
           [''focal'' \<mapsto> [1, 1], ''princpt'' \<mapsto> [0, 0], ''image'' \<mapsto> [0, 3]] of
      Inr diag \<Rightarrow> (diag ''gt'', diag ''diff'') | Inl e \<Rightarrow> (None, None))
     = (Some [0, 255], Some [255, 0])
   \<and> (case RGCASummary_call test_ops test_preds [''focal'' \<mapsto> [1, 1], ''princpt'' \<mapsto> [0, 0]] of
      Inr diag \<Rightarrow> (diag ''gt'', diag ''diff'', diag ''render'')
    | Inl e \<Rightarrow> (Some [], Some [], None))
     = (None, None, Some [255, 0])"
proof -
  let ?B = "[''focal'' \<mapsto> [1, 1], ''princpt'' \<mapsto> [0, 0], ''image'' \<mapsto> [0, 3 :: real]]"
  let ?B' = "[''focal'' \<mapsto> [1, 1], ''princpt'' \<mapsto> [0, 0 :: real]]"
  note th = summary_ground_truth [of test_ops test_preds ?B]
  note th' = summary_ground_truth [of test_ops test_preds ?B']
  from th obtain diag where r: "RGCASummary_call test_ops test_preds ?B = Inr diag"
    by auto
  from th r have "diag ''gt'' = Some (to_grid test_ops (map (clamp 0 1) (linear2srgb test_ops [0, 3])))"
    and "diag ''diff'' = Some (to_grid test_ops (map (clamp 0 1) (scale_diff_image test_ops
          (map2 (\<lambda>p g. min (max (p - g) (-1)) 1) [1, 0] [0, 3]))))"
    by auto
  then have v: "diag ''gt'' = Some [0, 255]" "diag ''diff'' = Some [255, 0]"
    by (simp_all add: to_grid_def clamp_def)
  from th' obtain diag' where r': "RGCASummary_call test_ops test_preds ?B' = Inr diag'"
    by auto
  from th' r' have "''gt'' \<notin> dom diag'" "''diff'' \<notin> dom diag'"
    by auto
  then have n: "diag' ''gt'' = None" "diag' ''diff'' = None"
    by auto
  from r' have "diag' ''render'' = Some [255, 0]"
    by (auto simp: RGCASummary_call_def lookup_def build_diag_def to_grid_def clamp_def Let_def)
  with r v r' n show ?thesis
    by simp
qed

section \<open>Properties of the test driver\<close>

text \<open>
  C10. When \<^verbatim>\<open>config.test\<close> has no \<^verbatim>\<open>"ckpt"\<close> entry, \<^verbatim>\<open>main\<close> raises
  \<^verbatim>\<open>ValueError("No checkpoint provided")\<close>, and neither a checkpoint was loaded nor \<^verbatim>\<open>test\<close>
  called: no test batch was processed. When the entry is present, that error is not raised,
  the checkpoint is loaded, and every call of \<^verbatim>\<open>test\<close> comes after it with a model whose
  weights are those the checkpoint loader gave; with \<^verbatim>\<open>config.test.data\<close> present as well,
  \<^verbatim>\<open>main\<close> returns and \<^verbatim>\<open>test\<close> was called.
\<close>

theorem main_requires_checkpoint:
  fixes ext :: "('c, 'w) externals" and cfg :: "'c config"
  shows "(test cfg ''ckpt'' = None \<longrightarrow>
            snd (main ext cfg) = Inl (ValueError ''No checkpoint provided'')
          \<and> (\<forall>m. Test m \<notin> set (fst (main ext cfg)))
          \<and> (\<forall>c. LoadCheckpoint c \<notin> set (fst (main ext cfg))))
       \<and> (\<forall>ckpt. test cfg ''ckpt'' = Some ckpt \<longrightarrow>
            snd (main ext cfg) \<noteq> Inl (ValueError ''No checkpoint provided'')
          \<and> LoadCheckpoint ckpt \<in> set (fst (main ext cfg))
          \<and> (\<forall>m. Test m \<in> set (fst (main ext cfg)) \<longrightarrow>
                weights m = load_checkpoint ext ckpt (weights (load_from_config ext (model cfg)))
              \<and> (\<exists>pre post. fst (main ext cfg) = pre @ LoadCheckpoint ckpt # post
                    \<and> Test m \<in> set post \<and> (\<forall>m'. Test m' \<notin> set pre)))
          \<and> (\<forall>td. test cfg ''data'' = Some td \<longrightarrow>
                snd (main ext cfg) = Inr () \<and> (\<exists>m. Test m \<in> set (fst (main ext cfg)))))"
proof (intro conjI allI impI)
  assume "test cfg ''ckpt'' = None"
  then show "snd (main ext cfg) = Inl (ValueError ''No checkpoint provided'')"
    by (simp add: main_def)
next
  fix m assume "test cfg ''ckpt'' = None"
  then show "Test m \<notin> set (fst (main ext cfg))"
    by (simp add: main_def)
next
  fix c assume "test cfg ''ckpt'' = None"
  then show "LoadCheckpoint c \<notin> set (fst (main ext cfg))"
    by (simp add: main_def)
next
  fix ckpt assume "test cfg ''ckpt'' = Some ckpt"
  then show "snd (main ext cfg) \<noteq> Inl (ValueError ''No checkpoint provided'')"
    by (simp add: main_def Let_def split: option.split)
next
  fix ckpt assume "test cfg ''ckpt'' = Some ckpt"
  then show "LoadCheckpoint ckpt \<in> set (fst (main ext cfg))"
    by (simp add: main_def Let_def split: option.split)
next
  fix ckpt m assume c: "test cfg ''ckpt'' = Some ckpt" and t: "Test m \<in> set (fst (main ext cfg))"
  from c t show "weights m = load_checkpoint ext ckpt (weights (load_from_config ext (model cfg)))"
    by (auto simp: main_def Let_def split: option.splits)
  let ?pre = "[BodyDataset (data cfg), LoadFromConfig (model cfg), LoadFromConfig (loss cfg),
                 DataLoader (dataloader cfg) False]"
  from c t obtain td where td: "test cfg ''data'' = Some td"
    by (cases "test cfg ''data''") (auto simp: main_def Let_def)
  let ?post = "[BodyDataset td, DataLoader (dataloader cfg) True, LoadFromConfig (summary cfg)]"
  from c t td obtain m2 where m2: "fst (main ext cfg) = ?pre @ LoadCheckpoint ckpt # (?post @ [Test m2])"
    by (simp add: main_def Let_def)
  with t have "m = m2"
    by simp
  with m2 have "fst (main ext cfg) = ?pre @ LoadCheckpoint ckpt # (?post @ [Test m])
      \<and> Test m \<in> set (?post @ [Test m]) \<and> (\<forall>m'. Test m' \<notin> set ?pre)"
    by simp
  then show "\<exists>pre post. fst (main ext cfg) = pre @ LoadCheckpoint ckpt # post
                    \<and> Test m \<in> set post \<and> (\<forall>m'. Test m' \<notin> set pre)"
    by blast
next
  fix ckpt td assume "test cfg ''ckpt'' = Some ckpt" "test cfg ''data'' = Some td"
  then show "snd (main ext cfg) = Inr ()" "\<exists>m. Test m \<in> set (fst (main ext cfg))"
    by (simp_all add: main_def Let_def)
qed

theorem main_requires_checkpoint_witness:
  "test \<lparr>data = 1 :: nat, model = 2, loss = 3, dataloader = 4, test = [''data'' \<mapsto> 8], summary = 5\<rparr> ''ckpt''
     = (None :: nat option)
   \<and> main \<lparr>load_from_config = \<lambda>c :: nat. \<lparr>weights = 0 :: nat, net_training = True,
              learn_blur_enabled = True, cal_enabled = True\<rparr>,
            load_checkpoint = \<lambda>c w. c\<rparr>
        \<lparr>data = 1 :: nat, model = 2, loss = 3, dataloader = 4, test = [''data'' \<mapsto> 8], summary = 5\<rparr>
     = ([BodyDataset 1, LoadFromConfig 2, LoadFromConfig 3, DataLoader 4 False],
        Inl (ValueError ''No checkpoint provided''))
   \<and> test \<lparr>data = 1 :: nat, model = 2, loss = 3, dataloader = 4,
          test = [''data'' \<mapsto> 8, ''ckpt'' \<mapsto> 7], summary = 5\<rparr> ''ckpt'' = Some (7 :: nat)
   \<and> main \<lparr>load_from_config = \<lambda>c :: nat. \<lparr>weights = 0 :: nat, net_training = True,
              learn_blur_enabled = True, cal_enabled = True\<rparr>,
            load_checkpoint = \<lambda>c w. c\<rparr>
        \<lparr>data = 1 :: nat, model = 2, loss = 3, dataloader = 4,
          test = [''data'' \<mapsto> 8, ''ckpt'' \<mapsto> 7], summary = 5\<rparr>
     = ([BodyDataset 1, LoadFromConfig 2, LoadFromConfig 3, DataLoader 4 False, LoadCheckpoint 7,
         BodyDataset 8, DataLoader 4 True, LoadFromConfig 5,
         Test \<lparr>weights = 7, net_training = False, learn_blur_enabled = False, cal_enabled = False\<rparr>],
        Inr ())"
proof -
  let ?ext = "\<lparr>load_from_config = \<lambda>c::nat. \<lparr>weights = 0::nat, net_training = True,
              learn_blur_enabled = True, cal_enabled = True\<rparr>,
            load_checkpoint = \<lambda>(c::nat) (w::nat). c\<rparr>"
  let ?A = "\<lparr>data = 1::nat, model = 2, loss = 3, dataloader = 4, test = [''data'' \<mapsto> 8], summary = 5\<rparr>"
  let ?B = "\<lparr>data = 1::nat, model = 2, loss = 3, dataloader = 4,
          test = [''data'' \<mapsto> 8, ''ckpt'' \<mapsto> 7], summary = 5\<rparr>"
  have a: "test ?A ''ckpt'' = None" and b: "test ?B ''ckpt'' = Some 7" and d: "test ?B ''data'' = Some 8"
    by simp_all
  from main_requires_checkpoint [of ?A ?ext] a
  have ra: "snd (main ?ext ?A) = Inl (ValueError ''No checkpoint provided'')"
    by blast
  from main_requires_checkpoint [of ?B ?ext] b d
  have rb: "snd (main ?ext ?B) = Inr ()"
    by blast
  have ta: "fst (main ?ext ?A) = [BodyDataset 1, LoadFromConfig 2, LoadFromConfig 3, DataLoader 4 False]"
    by (simp add: main_def)
  have tb: "fst (main ?ext ?B) = [BodyDataset 1, LoadFromConfig 2, LoadFromConfig 3, DataLoader 4 False,
         LoadCheckpoint 7, BodyDataset 8, DataLoader 4 True, LoadFromConfig 5,
         Test \<lparr>weights = 7, net_training = False, learn_blur_enabled = False, cal_enabled = False\<rparr>]"
    by (simp add: main_def)
  from a b ra rb ta tb show ?thesis
    by (simp only: prod_eq_iff fst_conv snd_conv simp_thms)
qed

end
